theory Spec2Isabelle
  imports Main "HOL-Library.Word" "HOL-Library.AList"
begin

section \<open>JavaScript values and the platform\<close>

text \<open>
  The extension is JavaScript running in a browser. Its values are modelled by a datatype
  of JSON values (numbers are whole numbers), objects by association lists in insertion
  order, byte arrays by lists of 8-bit words, strings by lists of characters. A thrown
  \<open>Error\<close> is the left summand of a sum; its argument is the message.
\<close>

type_synonym byte = "8 word"
type_synonym bytes = "byte list"

datatype json =
    JNull
  | JBool bool
  | JNum int
  | JStr string
  | JArr "json list"
  | JObj "(string \<times> json) list"

type_synonym obj = "(string \<times> json) list"

datatype error = Error string

fun message :: "error \<Rightarrow> string" where
  "message (Error m) = m"

text \<open>Truthiness, \<open>typeof x === 'object'\<close>, and reading a property.\<close>

fun truthy :: "json \<Rightarrow> bool" where
  "truthy JNull = False"
| "truthy (JBool b) = b"
| "truthy (JNum n) = (n \<noteq> 0)"
| "truthy (JStr s) = (s \<noteq> [])"
| "truthy (JArr xs) = True"
| "truthy (JObj ms) = True"

fun truthy_opt :: "json option \<Rightarrow> bool" where
  "truthy_opt None = False"
| "truthy_opt (Some v) = truthy v"

fun typeof_object :: "json \<Rightarrow> bool" where
  "typeof_object JNull = True"
| "typeof_object (JArr xs) = True"
| "typeof_object (JObj ms) = True"
| "typeof_object v = False"

fun isArray :: "json \<Rightarrow> bool" where
  "isArray (JArr xs) = True"
| "isArray v = False"

text \<open>
  \<open>x.name\<close>: a \<open>TypeError\<close> on \<open>null\<close>, the own property of an object, and
  \<open>undefined\<close> (here \<open>None\<close>) otherwise; none of the names the program reads is a
  property of a primitive's or an array's prototype.
\<close>

fun get_prop :: "json \<Rightarrow> string \<Rightarrow> error + json option" where
  "get_prop JNull k = Inl (Error ''TypeError: Cannot read properties of null'')"
| "get_prop (JObj ms) k = Inr (map_of ms k)"
| "get_prop v k = Inr None"

text \<open>\<open>Array.from(new Uint8Array(buf))\<close>: the bytes as an array of numbers.\<close>

definition bytes_json :: "bytes \<Rightarrow> json" where
  "bytes_json bs = JArr (map (\<lambda>b. JNum (uint b)) bs)"

fun is_number :: "json \<Rightarrow> bool" where
  "is_number (JNum n) = True"
| "is_number v = False"

fun number_byte :: "json \<Rightarrow> byte" where
  "number_byte (JNum n) = word_of_int n"
| "number_byte v = 0"

datatype usage = Encrypt | Decrypt

record cryptoKey =
  material :: bytes
  usages :: "usage list"

text \<open>
  What the browser and the \<open>bip39\<close> package provide is a parameter of the model: the
  text codec, AES-GCM and PBKDF2 of WebCrypto on raw key material, the random source
  (the \<open>n\<close>-th draw of twelve bytes), \<open>JSON.stringify\<close> and \<open>JSON.parse\<close>
  (\<open>None\<close> is a \<open>SyntaxError\<close>), the typed-array constructor on arguments other than
  \<open>undefined\<close>, \<open>null\<close> and arrays of numbers, \<open>Date.prototype.toISOString\<close>, whether
  \<open>chrome.storage.local\<close> exists, and the two \<open>bip39\<close> functions (a left
  summand is a thrown error).
\<close>

record platform =
  text_encode :: "string \<Rightarrow> bytes"
  text_decode :: "bytes \<Rightarrow> string"
  gcm_encrypt :: "bytes \<Rightarrow> bytes \<Rightarrow> bytes \<Rightarrow> bytes"
  gcm_decrypt :: "bytes \<Rightarrow> bytes \<Rightarrow> bytes \<Rightarrow> bytes option"
  pbkdf2_sha256 :: "bytes \<Rightarrow> bytes \<Rightarrow> nat \<Rightarrow> bytes"
  random_values :: "nat \<Rightarrow> bytes"
  json_stringify :: "json \<Rightarrow> string"
  json_parse :: "string \<Rightarrow> json option"
  typed_array_from :: "json \<Rightarrow> error + bytes"
  toISOString :: "int \<Rightarrow> string"
  storage_api :: bool
  validateMnemonic :: "string \<Rightarrow> bool"
  mnemonicToSeed :: "string \<Rightarrow> error + bytes"

text \<open>\<open>new Uint8Array(x)\<close>.\<close>

definition uint8array :: "platform \<Rightarrow> json option \<Rightarrow> error + bytes" where
  "uint8array h x =
     (case x of
        None \<Rightarrow> Inr []
      | Some JNull \<Rightarrow> Inr []
      | Some (JArr xs) \<Rightarrow>
          (if list_all is_number xs then Inr (map number_byte xs)
           else typed_array_from h (JArr xs))
      | Some v \<Rightarrow> typed_array_from h v)"

text \<open>
  \<open>crypto.subtle.encrypt\<close> and \<open>crypto.subtle.decrypt\<close> with \<open>{name: 'AES-GCM', iv}\<close>:
  the key must carry the usage; decryption fails when the tag does not match.
\<close>

definition subtle_encrypt :: "platform \<Rightarrow> cryptoKey \<Rightarrow> bytes \<Rightarrow> bytes \<Rightarrow> error + bytes" where
  "subtle_encrypt h key ivb plain =
     (if Encrypt \<in> set (usages key) then Inr (gcm_encrypt h (material key) ivb plain)
      else Inl (Error ''InvalidAccessError''))"

definition subtle_decrypt :: "platform \<Rightarrow> cryptoKey \<Rightarrow> bytes \<Rightarrow> bytes \<Rightarrow> error + bytes" where
  "subtle_decrypt h key ivb cipher =
     (if Decrypt \<in> set (usages key) then
        (case gcm_decrypt h (material key) ivb cipher of
           None \<Rightarrow> Inl (Error ''OperationError'')
         | Some plain \<Rightarrow> Inr plain)
      else Inl (Error ''InvalidAccessError''))"


section \<open>Program state\<close>

text \<open>
  The mutable state the program works on: the three fields of the \<open>AuthService\<close>
  singleton, the iteration count \<open>ENV.get('ENCRYPTION_ITERATIONS')\<close>, the contents of
  \<open>chrome.storage.local\<close>, the value of \<open>Date.now()\<close>, the number of random draws
  made so far, and the outcomes of the coming \<open>chrome.storage.local\<close> calls
  (\<open>Some m\<close>: the call sets \<open>chrome.runtime.lastError\<close> with message \<open>m\<close>; an
  exhausted list means success).
\<close>

record session =
  seedPhrase :: string
  timestamp :: int
  isActive :: bool

record state =
  currentUserSession :: "session option"
  currentStorageKey :: "cryptoKey option"
  sessionTimeout :: int
  encryptionIterations :: nat
  storage :: obj
  clock :: int
  drawn :: nat
  faults :: "string option list"

definition getRandomValues :: "platform \<Rightarrow> state \<Rightarrow> bytes \<times> state" where
  "getRandomValues h s = (random_values h (drawn s), s\<lparr>drawn := Suc (drawn s)\<rparr>)"

definition lastError :: "state \<Rightarrow> string option \<times> state" where
  "lastError s = (case faults s of [] \<Rightarrow> (None, s) | f # fs \<Rightarrow> (f, s\<lparr>faults := fs\<rparr>))"

text \<open>Writing the properties of \<open>items\<close> into an object, in order.\<close>

definition assign :: "obj \<Rightarrow> obj \<Rightarrow> obj" where
  "assign items target = fold (\<lambda>kv. AList.update (fst kv) (snd kv)) items target"

definition chrome_storage_set :: "obj \<Rightarrow> state \<Rightarrow> (error + unit) \<times> state" where
  "chrome_storage_set items s =
     (case lastError s of
        (Some m, s1) \<Rightarrow> (Inl (Error m), s1)
      | (None, s1) \<Rightarrow> (Inr (), s1\<lparr>storage := assign items (storage s1)\<rparr>))"

text \<open>\<open>chrome.storage.local.get(keys)\<close>; \<open>None\<close> is \<open>get(null)\<close>, everything.\<close>

definition chrome_storage_get :: "string list option \<Rightarrow> state \<Rightarrow> (error + obj) \<times> state" where
  "chrome_storage_get keys s =
     (case lastError s of
        (Some m, s1) \<Rightarrow> (Inl (Error m), s1)
      | (None, s1) \<Rightarrow>
          (Inr (case keys of
                  None \<Rightarrow> storage s1
                | Some ks \<Rightarrow> filter (\<lambda>kv. fst kv \<in> set ks) (storage s1)), s1))"

section \<open>lib/password/index.js\<close>

definition encryptData :: "platform \<Rightarrow> string \<Rightarrow> cryptoKey \<Rightarrow> state \<Rightarrow> (error + json) \<times> state" where
  "encryptData h data key s =
     (let dataBuffer = text_encode h data;
          (ivb, s1) = getRandomValues h s
      in case subtle_encrypt h key ivb dataBuffer of
           Inl e \<Rightarrow> (Inl e, s1)
         | Inr encryptedData \<Rightarrow>
             (Inr (JObj [(''iv'', bytes_json ivb), (''data'', bytes_json encryptedData)]), s1))"

definition decryptData :: "platform \<Rightarrow> json \<Rightarrow> cryptoKey \<Rightarrow> error + string" where
  "decryptData h encryptedObj key =
     (case get_prop encryptedObj ''iv'' of
        Inl e \<Rightarrow> Inl e
      | Inr ivv \<Rightarrow>
          (case uint8array h ivv of
             Inl e \<Rightarrow> Inl e
           | Inr ivb \<Rightarrow>
               (case get_prop encryptedObj ''data'' of
                  Inl e \<Rightarrow> Inl e
                | Inr dv \<Rightarrow>
                    (case uint8array h dv of
                       Inl e \<Rightarrow> Inl e
                     | Inr db \<Rightarrow>
                         (case subtle_decrypt h key ivb db of
                            Inl e \<Rightarrow> Inl e
                          | Inr decrypted \<Rightarrow> Inr (text_decode h decrypted))))))"

section \<open>lib/key/index.js\<close>

record keys =
  encryptionKey :: cryptoKey
  privateKey :: string
  publicKey :: string

definition hex_digit :: "nat \<Rightarrow> char" where
  "hex_digit n = ''0123456789abcdef'' ! n"

definition toHexString :: "bytes \<Rightarrow> string" where
  "toHexString bs = concat (map (\<lambda>b. [hex_digit (unat b div 16), hex_digit (unat b mod 16)]) bs)"

definition generateKeyFromSeedBytes :: "bytes \<Rightarrow> error + keys" where
  "generateKeyFromSeedBytes seed =
     (if length seed < 64 then
        Inl (Error ''Valid seed bytes (at least 64 bytes) are required for key generation.'')
      else
        (let keyMaterial = take 32 seed;
             privateKeyBuffer = take 32 seed;
             publicKeyBuffer = take 32 (drop 32 seed)
         in Inr \<lparr>encryptionKey = \<lparr>material = keyMaterial, usages = [Encrypt, Decrypt]\<rparr>,
                 privateKey = ''0x'' @ toHexString privateKeyBuffer,
                 publicKey = ''0x'' @ toHexString publicKeyBuffer\<rparr>))"

text \<open>
  The two lines \<open>seed = await bip39.mnemonicToSeed(seedPhrase)\<close> and
  \<open>generateKeyFromSeedBytes(seed)\<close>, which every caller writes together.
\<close>

definition keysFromMnemonic :: "platform \<Rightarrow> string \<Rightarrow> error + keys" where
  "keysFromMnemonic h phrase =
     (case mnemonicToSeed h phrase of
        Inl e \<Rightarrow> Inl e
      | Inr seed \<Rightarrow> generateKeyFromSeedBytes seed)"

definition generateStorageEncryptionKey :: "platform \<Rightarrow> string \<Rightarrow> cryptoKey" where
  "generateStorageEncryptionKey h phrase =
     (let salt = text_encode h ''SecureSphere-LocalStorage-Protection-v1''
      in \<lparr>material = pbkdf2_sha256 h (text_encode h phrase) salt 250000,
          usages = [Encrypt, Decrypt]\<rparr>)"

definition encryptStorageData :: "platform \<Rightarrow> json \<Rightarrow> cryptoKey \<Rightarrow> state \<Rightarrow> (error + json) \<times> state" where
  "encryptStorageData h data storageKey s =
     (let dataString = (case data of JStr str \<Rightarrow> str | _ \<Rightarrow> json_stringify h data);
          dataBuffer = text_encode h dataString;
          (ivb, s1) = getRandomValues h s
      in case subtle_encrypt h storageKey ivb dataBuffer of
           Inl e \<Rightarrow> (Inl (Error ''Failed to encrypt storage data''), s1)
         | Inr encryptedData \<Rightarrow>
             (Inr (JObj [(''encrypted'', JBool True),
                         (''version'', JStr ''1.0''),
                         (''iv'', bytes_json ivb),
                         (''data'', bytes_json encryptedData),
                         (''timestamp'', JNum (clock s1))]), s1))"

definition decrypt_failed :: error where
  "decrypt_failed = Error ''Failed to decrypt storage data - possible corruption or wrong key''"

definition decryptStorageData :: "platform \<Rightarrow> json \<Rightarrow> cryptoKey \<Rightarrow> error + json" where
  "decryptStorageData h encryptedObj storageKey =
     (if \<not> truthy encryptedObj \<or> \<not> typeof_object encryptedObj
         \<or> \<not> (case get_prop encryptedObj ''encrypted'' of Inl e \<Rightarrow> False | Inr v \<Rightarrow> truthy_opt v)
      then Inr encryptedObj
      else
        (case (get_prop encryptedObj ''iv'', get_prop encryptedObj ''data'') of
           (Inr ivv, Inr dv) \<Rightarrow>
             (if \<not> truthy_opt ivv \<or> \<not> truthy_opt dv then Inl decrypt_failed
              else
                (case (uint8array h ivv, uint8array h dv) of
                   (Inr ivb, Inr db) \<Rightarrow>
                     (case subtle_decrypt h storageKey ivb db of
                        Inl e \<Rightarrow> Inl decrypt_failed
                      | Inr decrypted \<Rightarrow>
                          (let decryptedString = text_decode h decrypted
                           in case json_parse h decryptedString of
                                Some v \<Rightarrow> Inr v
                              | None \<Rightarrow> Inr (JStr decryptedString)))
                 | _ \<Rightarrow> Inl decrypt_failed))
         | _ \<Rightarrow> Inl decrypt_failed))"

definition skipEncryption :: "string list" where
  "skipEncryption = [''firstTimeSetup'', ''hasEncryptedStorage'', ''storageVersion'']"

text \<open>The loop of \<open>secureStorageSet\<close> over \<open>Object.entries(items)\<close>.\<close>

fun encryptItems :: "platform \<Rightarrow> cryptoKey \<Rightarrow> obj \<Rightarrow> obj \<Rightarrow> state \<Rightarrow> (error + obj) \<times> state" where
  "encryptItems h storageKey [] encryptedItems s = (Inr encryptedItems, s)"
| "encryptItems h storageKey ((key, v) # rest) encryptedItems s =
     (if key \<in> set skipEncryption then
        encryptItems h storageKey rest (AList.update key v encryptedItems) s
      else
        (case encryptStorageData h v storageKey s of
           (Inl e, s1) \<Rightarrow> (Inl e, s1)
         | (Inr enc, s1) \<Rightarrow>
             encryptItems h storageKey rest (AList.update key enc encryptedItems) s1))"

definition stamp :: "obj \<Rightarrow> obj" where
  "stamp encryptedItems =
     AList.update ''storageVersion'' (JStr ''1.0'')
       (AList.update ''hasEncryptedStorage'' (JBool True) encryptedItems)"

definition secureStorageSet :: "platform \<Rightarrow> obj \<Rightarrow> cryptoKey \<Rightarrow> state \<Rightarrow> (error + unit) \<times> state" where
  "secureStorageSet h items storageKey s =
     (case encryptItems h storageKey items [] s of
        (Inl e, s1) \<Rightarrow> (Inl e, s1)
      | (Inr encryptedItems, s1) \<Rightarrow> chrome_storage_set (stamp encryptedItems) s1)"

text \<open>The loop of \<open>secureStorageGet\<close> over the entries read.\<close>

fun decryptItems :: "platform \<Rightarrow> cryptoKey \<Rightarrow> obj \<Rightarrow> obj \<Rightarrow> error + obj" where
  "decryptItems h storageKey [] decryptedResult = Inr decryptedResult"
| "decryptItems h storageKey ((key, v) # rest) decryptedResult =
     (if key \<in> set skipEncryption then
        decryptItems h storageKey rest (AList.update key v decryptedResult)
      else
        (case decryptStorageData h v storageKey of
           Inl e \<Rightarrow> Inl e
         | Inr dec \<Rightarrow> decryptItems h storageKey rest (AList.update key dec decryptedResult)))"

definition secureStorageGet :: "platform \<Rightarrow> string list option \<Rightarrow> cryptoKey \<Rightarrow> state \<Rightarrow> (error + obj) \<times> state" where
  "secureStorageGet h keys storageKey s =
     (case chrome_storage_get keys s of
        (Inl e, s1) \<Rightarrow> (Inl e, s1)
      | (Inr result, s1) \<Rightarrow> (decryptItems h storageKey result [], s1))"

text \<open>The loop of \<open>migrateToEncryptedStorage\<close>: \<open>null\<close> values are left out of the batch.\<close>

fun migrateItems :: "platform \<Rightarrow> cryptoKey \<Rightarrow> obj \<Rightarrow> obj \<Rightarrow> state \<Rightarrow> (error + obj) \<times> state" where
  "migrateItems h storageKey [] encryptedData s = (Inr encryptedData, s)"
| "migrateItems h storageKey ((key, v) # rest) encryptedData s =
     (if key \<in> set skipEncryption then
        migrateItems h storageKey rest (AList.update key v encryptedData) s
      else if v \<noteq> JNull then
        (case encryptStorageData h v storageKey s of
           (Inl e, s1) \<Rightarrow> (Inl e, s1)
         | (Inr enc, s1) \<Rightarrow>
             migrateItems h storageKey rest (AList.update key enc encryptedData) s1)
      else migrateItems h storageKey rest encryptedData s)"

definition migration_failed :: "error \<Rightarrow> error" where
  "migration_failed e = Error (''Storage encryption migration failed: '' @ message e)"

definition migrateToEncryptedStorage :: "platform \<Rightarrow> cryptoKey \<Rightarrow> state \<Rightarrow> (error + bool) \<times> state" where
  "migrateToEncryptedStorage h storageKey s =
     (case chrome_storage_get None s of
        (Inl e, s1) \<Rightarrow> (Inl (migration_failed e), s1)
      | (Inr allData, s1) \<Rightarrow>
          (if truthy_opt (map_of allData ''hasEncryptedStorage'') then (Inr True, s1)
           else
             (case migrateItems h storageKey allData [] s1 of
                (Inl e, s2) \<Rightarrow> (Inl (migration_failed e), s2)
              | (Inr encryptedData, s2) \<Rightarrow>
                  (case chrome_storage_set (stamp encryptedData) s2 of
                     (Inl e, s3) \<Rightarrow> (Inl (migration_failed e), s3)
                   | (Inr u, s3) \<Rightarrow> (Inr True, s3)))))"

definition testData :: "state \<Rightarrow> json" where
  "testData s =
     JObj [(''test'', JStr ''encryption_test''),
           (''timestamp'', JNum (clock s)),
           (''array'', JArr [JNum 1, JNum 2, JNum 3]),
           (''object'', JObj [(''nested'', JBool True)])]"

definition verifyStorageEncryption :: "platform \<Rightarrow> cryptoKey \<Rightarrow> state \<Rightarrow> bool \<times> state" where
  "verifyStorageEncryption h storageKey s =
     (case encryptStorageData h (testData s) storageKey s of
        (Inl e, s1) \<Rightarrow> (False, s1)
      | (Inr encrypted, s1) \<Rightarrow>
          (case decryptStorageData h encrypted storageKey of
             Inl e \<Rightarrow> (False, s1)
           | Inr decrypted \<Rightarrow>
               (json_stringify h (testData s) = json_stringify h decrypted, s1)))"


section \<open>The authentication service\<close>

datatype opResult = Success | Failure string

datatype verifyResult = Verified string | NotVerified string

datatype loginResult = LoginOk string | LoginFailed string

record sessionInfo = session +
  timeRemaining :: int

definition initializeStorageEncryption :: "platform \<Rightarrow> string \<Rightarrow> state \<Rightarrow> (error + bool) \<times> state" where
  "initializeStorageEncryption h phrase s =
     (let key = generateStorageEncryptionKey h phrase;
          s0 = s\<lparr>currentStorageKey := Some key\<rparr>
      in case verifyStorageEncryption h key s0 of
           (False, s1) \<Rightarrow>
             (Inl (Error ''Storage encryption verification failed''),
              s1\<lparr>currentStorageKey := None\<rparr>)
         | (True, s1) \<Rightarrow>
             (case migrateToEncryptedStorage h key s1 of
                (Inl e, s2) \<Rightarrow> (Inl e, s2\<lparr>currentStorageKey := None\<rparr>)
              | (Inr b, s2) \<Rightarrow> (Inr True, s2)))"

text \<open>\<open>getSecureStorage().set\<close> and \<open>getSecureStorage().get\<close>.\<close>

definition secureStorage_set :: "platform \<Rightarrow> obj \<Rightarrow> state \<Rightarrow> (error + unit) \<times> state" where
  "secureStorage_set h items s =
     (case currentStorageKey s of
        None \<Rightarrow> chrome_storage_set items s
      | Some key \<Rightarrow> secureStorageSet h items key s)"

definition secureStorage_get :: "platform \<Rightarrow> string list option \<Rightarrow> state \<Rightarrow> (error + obj) \<times> state" where
  "secureStorage_get h keys s =
     (case currentStorageKey s of
        None \<Rightarrow> chrome_storage_get keys s
      | Some key \<Rightarrow> secureStorageGet h keys key s)"

text \<open>\<open>String.prototype.trim\<close> on the white space among the first 256 code units.\<close>

definition is_space :: "char \<Rightarrow> bool" where
  "is_space c = (of_char c \<in> {9, 10, 11, 12, 13, 32, 160 :: nat})"

definition trim :: "string \<Rightarrow> string" where
  "trim str = rev (dropWhile is_space (rev (dropWhile is_space str)))"

definition validateSeedPhrase :: "platform \<Rightarrow> string \<Rightarrow> bool" where
  "validateSeedPhrase h phrase = (if phrase = [] then False else validateMnemonic h (trim phrase))"

text \<open>\<open>str.padEnd(n, c)\<close> for a one-character pad string.\<close>

definition padEnd :: "string \<Rightarrow> nat \<Rightarrow> char \<Rightarrow> string" where
  "padEnd str n c = str @ replicate (n - length str) c"

text \<open>
  The key derived from the PIN alone: PBKDF2 with SHA-256 and the salt
  \<open>'SecureSphere'\<close> over the PIN padded to 32 characters, as an AES-GCM key.
\<close>

definition pinDerivedKey :: "platform \<Rightarrow> string \<Rightarrow> nat \<Rightarrow> usage list \<Rightarrow> cryptoKey" where
  "pinDerivedKey h pin iterations us =
     \<lparr>material = pbkdf2_sha256 h (text_encode h (padEnd pin 32 (CHR ''0'')))
                   (text_encode h ''SecureSphere'') iterations,
      usages = us\<rparr>"

definition ensureStorageKey :: "platform \<Rightarrow> string \<Rightarrow> state \<Rightarrow> (error + bool) \<times> state" where
  "ensureStorageKey h phrase s =
     (case currentStorageKey s of
        None \<Rightarrow> initializeStorageEncryption h phrase s
      | Some key \<Rightarrow> (Inr True, s))"

definition storePin :: "platform \<Rightarrow> string \<Rightarrow> string \<Rightarrow> state \<Rightarrow> opResult \<times> state" where
  "storePin h pin phrase s =
     (case ensureStorageKey h phrase s of
        (Inl e, s1) \<Rightarrow> (Failure (message e), s1)
      | (Inr b, s1) \<Rightarrow>
          (case keysFromMnemonic h phrase of
             Inl e \<Rightarrow> (Failure (message e), s1)
           | Inr ks \<Rightarrow>
               (case encryptData h pin (encryptionKey ks) s1 of
                  (Inl e, s2) \<Rightarrow> (Failure (message e), s2)
                | (Inr encryptedPin, s2) \<Rightarrow>
                    (case encryptData h phrase
                            (pinDerivedKey h pin (encryptionIterations s2) [Encrypt]) s2 of
                       (Inl e, s3) \<Rightarrow> (Failure (message e), s3)
                     | (Inr encryptedSeed, s3) \<Rightarrow>
                         (case secureStorage_set h
                                 [(''pinCode'', encryptedPin),
                                  (''encryptedSeedPhrase'', encryptedSeed),
                                  (''storedSeedPhrase'', JStr phrase),
                                  (''hasSeedPhrase'', JBool True)] s3 of
                            (Inl e, s4) \<Rightarrow> (Failure (message e), s4)
                          | (Inr u, s4) \<Rightarrow> (Success, s4))))))"

definition createUserSession :: "string \<Rightarrow> state \<Rightarrow> state" where
  "createUserSession phrase s =
     s\<lparr>currentUserSession := Some \<lparr>seedPhrase = phrase, timestamp = clock s, isActive = True\<rparr>\<rparr>"

definition verifyPin :: "platform \<Rightarrow> string \<Rightarrow> state \<Rightarrow> verifyResult \<times> state" where
  "verifyPin h pin s =
     (case secureStorage_get h (Some [''pinCode'', ''encryptedSeedPhrase'']) s of
        (Inl e, s1) \<Rightarrow> (NotVerified (message e), s1)
      | (Inr result, s1) \<Rightarrow>
          (case (map_of result ''pinCode'', map_of result ''encryptedSeedPhrase'') of
             (Some pinCode, Some encryptedSeedPhrase) \<Rightarrow>
               (if \<not> truthy pinCode \<or> \<not> truthy encryptedSeedPhrase then
                  (NotVerified ''PIN not set or seed phrase not found'', s1)
                else
                  (case decryptData h encryptedSeedPhrase
                          (pinDerivedKey h pin (encryptionIterations s1) [Decrypt]) of
                     Inl e \<Rightarrow> (NotVerified ''Invalid PIN'', s1)
                   | Inr phrase \<Rightarrow>
                       (case ensureStorageKey h phrase s1 of
                          (Inl e, s2) \<Rightarrow> (NotVerified (message e), s2)
                        | (Inr b, s2) \<Rightarrow>
                            (case keysFromMnemonic h phrase of
                               Inl e \<Rightarrow> (NotVerified (message e), s2)
                             | Inr ks \<Rightarrow>
                                 (case decryptData h pinCode (encryptionKey ks) of
                                    Inl e \<Rightarrow> (NotVerified (message e), s2)
                                  | Inr decryptedPin \<Rightarrow>
                                      (if decryptedPin = pin then
                                         (Verified phrase, createUserSession phrase s2)
                                       else (NotVerified ''Invalid PIN'', s2)))))))
           | _ \<Rightarrow> (NotVerified ''PIN not set or seed phrase not found'', s1)))"

definition verifySeedPhraseLogin :: "platform \<Rightarrow> string \<Rightarrow> state \<Rightarrow> loginResult \<times> state" where
  "verifySeedPhraseLogin h phrase s =
     (if \<not> validateSeedPhrase h phrase then (LoginFailed ''Invalid seed phrase'', s)
      else
        (case ensureStorageKey h phrase s of
           (Inl e, s1) \<Rightarrow> (LoginFailed (message e), s1)
         | (Inr b, s1) \<Rightarrow> (LoginOk phrase, createUserSession phrase s1)))"

definition clearUserSession :: "state \<Rightarrow> state" where
  "clearUserSession s = s\<lparr>currentUserSession := None, currentStorageKey := None\<rparr>"

definition isSessionValid :: "state \<Rightarrow> bool \<times> state" where
  "isSessionValid s =
     (case currentUserSession s of
        None \<Rightarrow> (False, s)
      | Some sess \<Rightarrow>
          (if \<not> isActive sess then (False, s)
           else
             (let now = clock s;
                  sessionAge = now - timestamp sess
              in if sessionAge > sessionTimeout s then (False, clearUserSession s)
                 else (True, s))))"

definition refreshUserSession :: "state \<Rightarrow> state" where
  "refreshUserSession s =
     (case currentUserSession s of
        None \<Rightarrow> s
      | Some sess \<Rightarrow>
          (if isActive sess then s\<lparr>currentUserSession := Some (sess\<lparr>timestamp := clock s\<rparr>)\<rparr>
           else s))"

definition updateSessionTimeout :: "int \<Rightarrow> state \<Rightarrow> state" where
  "updateSessionTimeout timeoutMinutes s = s\<lparr>sessionTimeout := timeoutMinutes * 60 * 1000\<rparr>"

definition getCurrentSession :: "state \<Rightarrow> sessionInfo option \<times> state" where
  "getCurrentSession s =
     (case currentUserSession s of
        None \<Rightarrow> (None, s)
      | Some sess0 \<Rightarrow>
          (case isSessionValid s of
             (False, s1) \<Rightarrow> (None, s1)
           | (True, s1) \<Rightarrow>
               (case currentUserSession s1 of
                  None \<Rightarrow> (None, s1)
                | Some sess \<Rightarrow>
                    (Some \<lparr>seedPhrase = seedPhrase sess, timestamp = timestamp sess,
                           isActive = isActive sess,
                           timeRemaining = sessionTimeout s1 - (clock s1 - timestamp sess)\<rparr>,
                     s1))))"


section \<open>The password service\<close>

text \<open>\<open>Number.prototype.toString\<close> on a whole number.\<close>

fun digits :: "nat \<Rightarrow> string" where
  "digits n =
     (if n < 10 then [char_of (48 + n)] else digits (n div 10) @ [char_of (48 + n mod 10)])"

definition number_toString :: "int \<Rightarrow> string" where
  "number_toString i = (if i < 0 then CHR ''-'' # digits (nat (- i)) else digits (nat i))"

text \<open>\<open>x || []\<close> and the spread \<open>[...x]\<close> of a value.\<close>

fun or_empty :: "json option \<Rightarrow> json" where
  "or_empty None = JArr []"
| "or_empty (Some v) = (if truthy v then v else JArr [])"

fun spread :: "json \<Rightarrow> error + json list" where
  "spread (JArr xs) = Inr xs"
| "spread (JStr str) = Inr (map (\<lambda>c. JStr [c]) str)"
| "spread v = Inl (Error ''TypeError: object is not iterable'')"

record credentialsResult =
  credentials :: "json option"
  walletSeeds :: "json option"
  error :: "string option"

record validation =
  valid :: bool
  errors :: "string list option"

record importSummary =
  imported :: nat
  total :: nat
  skipped :: nat

datatype importResult = ImportOk importSummary | ImportFailed string

definition createBackupRecord :: "platform \<Rightarrow> nat \<Rightarrow> state \<Rightarrow> (error + unit) \<times> state" where
  "createBackupRecord h credentialCount s =
     (case secureStorage_get h (Some [''backups'']) s of
        (Inl e, s1) \<Rightarrow> (Inl e, s1)
      | (Inr backupResult, s1) \<Rightarrow>
          (case spread (or_empty (map_of backupResult ''backups'')) of
             Inl e \<Rightarrow> (Inl e, s1)
           | Inr backups \<Rightarrow>
               (let newBackup = JObj [(''id'', JStr (number_toString (clock s1))),
                                      (''timestamp'', JNum (clock s1)),
                                      (''credentialCount'', JNum (int credentialCount))];
                    updatedBackups = take 10 (newBackup # backups)
                in secureStorage_set h
                     [(''backups'', JArr updatedBackups),
                      (''currentBackupId'', JStr (number_toString (clock s1)))] s1)))"

definition dataToStore :: "platform \<Rightarrow> json list \<Rightarrow> string option \<Rightarrow> state \<Rightarrow> json" where
  "dataToStore h creds stamp_opt s =
     JObj [(''credentials'', JArr creds),
           (''timestamp'',
            JStr (case stamp_opt of
                    None \<Rightarrow> toISOString h (clock s)
                  | Some t \<Rightarrow> (if t = [] then toISOString h (clock s) else t)))]"

function storeCredentials ::
  "platform \<Rightarrow> json list \<Rightarrow> string \<Rightarrow> string option \<Rightarrow> nat \<Rightarrow> state \<Rightarrow> opResult \<times> state" where
  "storeCredentials h creds phrase stamp_opt retryCount s =
     (if \<not> storage_api h then (Failure ''Chrome storage API not available'', s)
      else
        (case keysFromMnemonic h phrase of
           Inl e \<Rightarrow> (Failure (message e), s)
         | Inr ks \<Rightarrow>
             (case encryptData h (json_stringify h (dataToStore h creds stamp_opt s))
                     (encryptionKey ks) s of
                (Inl e, s1) \<Rightarrow> (Failure (message e), s1)
              | (Inr encrypted, s1) \<Rightarrow>
                  (case secureStorage_set h
                          [(''credentials'', encrypted), (''hasSeedPhrase'', JBool True)] s1 of
                     (Inl storageError, s2) \<Rightarrow>
                       (if retryCount < 3 then
                          storeCredentials h creds phrase stamp_opt (retryCount + 1)
                            (s2\<lparr>clock := clock s2 + 1000 * (int retryCount + 1)\<rparr>)
                        else (Failure (message storageError), s2))
                   | (Inr u, s2) \<Rightarrow>
                       (case createBackupRecord h (length creds) s2 of
                          (r, s3) \<Rightarrow> (Success, s3))))))"
  by pat_completeness auto
termination
  by (relation "measure (\<lambda>(h, creds, phrase, stamp_opt, retryCount, s). 3 - retryCount)") auto

declare storeCredentials.simps [simp del]

text \<open>
  The three document shapes accepted after \<open>JSON.parse\<close>, the same lines in the
  password service and in the background script; a \<open>TypeError\<close> (reading a property
  of \<open>null\<close>) is caught by the caller.
\<close>

definition documentShape :: "json \<Rightarrow> error + credentialsResult" where
  "documentShape data =
     (if isArray data then
        Inr \<lparr>credentials = Some data, walletSeeds = Some (JArr []), error = None\<rparr>
      else
        (case get_prop data ''credentials'' of
           Inl e \<Rightarrow> Inl e
         | Inr c \<Rightarrow>
             (if truthy_opt c then
                (case get_prop data ''walletSeeds'' of
                   Inl e \<Rightarrow> Inl e
                 | Inr w \<Rightarrow> Inr \<lparr>credentials = c, walletSeeds = Some (or_empty w), error = None\<rparr>)
              else if typeof_object data then
                Inr \<lparr>credentials = Some (JArr [data]), walletSeeds = Some (JArr []),
                     error = None\<rparr>
              else
                Inr \<lparr>credentials = Some (JArr []), walletSeeds = Some (JArr []),
                     error = None\<rparr>)))"

definition emptyResult :: "string option \<Rightarrow> credentialsResult" where
  "emptyResult e = \<lparr>credentials = Some (JArr []), walletSeeds = Some (JArr []), error = e\<rparr>"

definition getCredentials :: "platform \<Rightarrow> string \<Rightarrow> state \<Rightarrow> credentialsResult \<times> state" where
  "getCredentials h phrase s =
     (if \<not> storage_api h then
        (\<lparr>credentials = None, walletSeeds = None,
          error = Some ''Chrome storage API not available''\<rparr>, s)
      else if phrase = [] then
        (case secureStorage_get h (Some [''credentials'']) s of
           (Inl storageError, s1) \<Rightarrow>
             (emptyResult (Some (if message storageError = [] then ''Failed to access storage''
                                 else message storageError)), s1)
         | (Inr result, s1) \<Rightarrow>
             (if \<not> truthy_opt (map_of result ''credentials'') then
                (emptyResult (Some ''No credentials found''), s1)
              else
                (\<lparr>credentials = map_of result ''credentials'',
                  walletSeeds = Some (or_empty (map_of result ''walletSeeds'')),
                  error = None\<rparr>, s1)))
      else if \<not> validateSeedPhrase h phrase then
        (emptyResult (Some ''Invalid seed phrase''), s)
      else
        (case keysFromMnemonic h phrase of
           Inl e \<Rightarrow> (emptyResult (Some (message e)), s)
         | Inr ks \<Rightarrow>
             (case secureStorage_get h (Some [''credentials'', ''backupCID'']) s of
                (Inl e, s1) \<Rightarrow> (emptyResult (Some (message e)), s1)
              | (Inr stored, s1) \<Rightarrow>
                  (if truthy_opt (map_of stored ''credentials'') then
                     (case decryptData h (or_empty (map_of stored ''credentials''))
                             (encryptionKey ks) of
                        Inl e \<Rightarrow>
                          (emptyResult (Some (''Failed to decrypt credentials: '' @ message e)), s1)
                      | Inr decrypted \<Rightarrow>
                          (case json_parse h decrypted of
                             None \<Rightarrow>
                               (emptyResult
                                  (Some (''Failed to decrypt credentials: '' @ ''SyntaxError'')), s1)
                           | Some data \<Rightarrow>
                               (case documentShape data of
                                  Inl e \<Rightarrow>
                                    (emptyResult
                                       (Some (''Failed to decrypt credentials: '' @ message e)), s1)
                                | Inr r \<Rightarrow> (r, s1))))
                   else (emptyResult None, s1)))))"

text \<open>\<open>!credential.f || credential.f.trim().length === 0\<close>.\<close>

definition missing :: "json \<Rightarrow> string \<Rightarrow> error + bool" where
  "missing credential f =
     (case get_prop credential f of
        Inl e \<Rightarrow> Inl e
      | Inr None \<Rightarrow> Inr True
      | Inr (Some v) \<Rightarrow>
          (if \<not> truthy v then Inr True
           else
             (case v of
                JStr str \<Rightarrow> Inr (length (trim str) = 0)
              | _ \<Rightarrow> Inl (Error ''TypeError: trim is not a function''))))"

text \<open>The checks of one branch of \<open>validateCredential\<close>, pushing a message per failure.\<close>

fun required :: "json \<Rightarrow> (string \<times> string) list \<Rightarrow> string list \<Rightarrow> error + string list" where
  "required credential [] errs = Inr errs"
| "required credential ((f, msg) # rest) errs =
     (case missing credential f of
        Inl e \<Rightarrow> Inl e
      | Inr m \<Rightarrow> required credential rest (if m then errs @ [msg] else errs))"

definition validateCredential :: "json \<Rightarrow> error + validation" where
  "validateCredential credential =
     (if \<not> truthy credential \<or> \<not> typeof_object credential then
        Inr \<lparr>valid = False, errors = Some [''Credential must be an object'']\<rparr>
      else
        (case (if get_prop credential ''type'' = Inr (Some (JStr ''wallet'')) then
                 required credential
                   [(''name'', ''Wallet name is required''),
                    (''seedPhrase'', ''Wallet seed phrase is required'')] []
               else
                 required credential
                   [(''website'', ''Website is required''),
                    (''username'', ''Username is required''),
                    (''password'', ''Password is required'')] []) of
           Inl e \<Rightarrow> Inl e
         | Inr errs \<Rightarrow>
             Inr \<lparr>valid = (length errs = 0),
                  errors = (if length errs > 0 then Some errs else None)\<rparr>))"

text \<open>\<open>importedCredentials.filter(cred => this.validateCredential(cred).valid)\<close>.\<close>

fun filterValid :: "json list \<Rightarrow> error + json list" where
  "filterValid [] = Inr []"
| "filterValid (cred # rest) =
     (case validateCredential cred of
        Inl e \<Rightarrow> Inl e
      | Inr v \<Rightarrow>
          (case filterValid rest of
             Inl e \<Rightarrow> Inl e
           | Inr keep \<Rightarrow> Inr (if valid v then cred # keep else keep)))"

text \<open>\<open>parsed.credentials || parsed.passwords || []\<close>.\<close>

definition importedOf :: "json \<Rightarrow> error + json" where
  "importedOf parsed =
     (case get_prop parsed ''credentials'' of
        Inl e \<Rightarrow> Inl e
      | Inr c \<Rightarrow>
          (if truthy_opt c then Inr (or_empty c)
           else
             (case get_prop parsed ''passwords'' of
                Inl e \<Rightarrow> Inl e
              | Inr p \<Rightarrow> Inr (or_empty p))))"

definition importCredentials ::
  "platform \<Rightarrow> string \<Rightarrow> string \<Rightarrow> string \<Rightarrow> bool \<Rightarrow> state \<Rightarrow> importResult \<times> state" where
  "importCredentials h data phrase format replace s =
     (if format \<noteq> ''json'' then (ImportFailed (''Unsupported import format: '' @ format), s)
      else
        (case json_parse h data of
           None \<Rightarrow> (ImportFailed ''SyntaxError'', s)
         | Some parsed \<Rightarrow>
             (case importedOf parsed of
                Inl e \<Rightarrow> (ImportFailed (message e), s)
              | Inr (JArr importedCredentials) \<Rightarrow>
                  (case filterValid importedCredentials of
                     Inl e \<Rightarrow> (ImportFailed (message e), s)
                   | Inr validCredentials \<Rightarrow>
                       (if length validCredentials = 0 then
                          (ImportFailed ''No valid credentials found in import data'', s)
                        else
                          (case getCredentials h phrase s of
                             (existingResult, s1) \<Rightarrow>
                               (case (if replace then Inr validCredentials
                                      else
                                        (case spread (or_empty (credentials existingResult)) of
                                           Inl e \<Rightarrow> Inl e
                                         | Inr existingCredentials \<Rightarrow>
                                             Inr (existingCredentials @ validCredentials))) of
                                  Inl e \<Rightarrow> (ImportFailed (message e), s1)
                                | Inr finalCredentials \<Rightarrow>
                                    (case storeCredentials h finalCredentials phrase None 0 s1 of
                                       (Success, s2) \<Rightarrow>
                                         (ImportOk \<lparr>imported = length validCredentials,
                                                    total = length finalCredentials,
                                                    skipped = length importedCredentials
                                                              - length validCredentials\<rparr>, s2)
                                     | (Failure m, s2) \<Rightarrow>
                                         (ImportFailed
                                            (if m = [] then ''Failed to store imported credentials''
                                             else m), s2))))))
              | Inr v \<Rightarrow>
                  (ImportFailed ''TypeError: importedCredentials.filter is not a function'', s))))"


section \<open>A reference platform\<close>

text \<open>
  A small executable instance of the platform, on which the model runs on concrete
  inputs: characters are encoded as single bytes; the cipher appends a one-byte tag
  computed from the key and the nonce, and decryption checks it; key derivation
  truncates password, salt and count to 32 bytes; JSON text is written without white
  space and read back by a recursive-descent reader (no escape sequences); the fixed
  mnemonic below is the only one that validates, and every string has a 64-byte seed.
\<close>

definition ref_encode :: "string \<Rightarrow> bytes" where
  "ref_encode str = map (\<lambda>c. of_nat (of_char c)) str"

definition ref_decode :: "bytes \<Rightarrow> string" where
  "ref_decode bs = map (\<lambda>b. char_of (unat b)) bs"

definition ref_tag :: "bytes \<Rightarrow> bytes \<Rightarrow> byte" where
  "ref_tag k n = sum_list k + sum_list n"

definition ref_gcm_encrypt :: "bytes \<Rightarrow> bytes \<Rightarrow> bytes \<Rightarrow> bytes" where
  "ref_gcm_encrypt k n plain = plain @ [ref_tag k n]"

definition ref_gcm_decrypt :: "bytes \<Rightarrow> bytes \<Rightarrow> bytes \<Rightarrow> bytes option" where
  "ref_gcm_decrypt k n cipher =
     (if cipher \<noteq> [] \<and> last cipher = ref_tag k n then Some (butlast cipher) else None)"

definition ref_pbkdf2 :: "bytes \<Rightarrow> bytes \<Rightarrow> nat \<Rightarrow> bytes" where
  "ref_pbkdf2 password salt iterations = take 32 (password @ salt @ replicate 32 (of_nat iterations))"

definition ref_random :: "nat \<Rightarrow> bytes" where
  "ref_random n = replicate 12 (of_nat n)"

fun commas :: "string list \<Rightarrow> string" where
  "commas [] = []"
| "commas [x] = x"
| "commas (x # y # ys) = x @ '','' @ commas (y # ys)"

definition quote :: "string \<Rightarrow> string" where
  "quote str = CHR 0x22 # str @ [CHR 0x22]"

fun ref_stringify :: "json \<Rightarrow> string" where
  "ref_stringify JNull = ''null''"
| "ref_stringify (JBool b) = (if b then ''true'' else ''false'')"
| "ref_stringify (JNum n) = number_toString n"
| "ref_stringify (JStr str) = quote str"
| "ref_stringify (JArr xs) = ''['' @ commas (map ref_stringify xs) @ '']''"
| "ref_stringify (JObj ms) =
     ''{'' @ commas (map (\<lambda>kv. quote (fst kv) @ '':'' @ ref_stringify (snd kv)) ms) @ ''}''"

definition is_digit :: "char \<Rightarrow> bool" where
  "is_digit c = (48 \<le> (of_char c :: nat) \<and> (of_char c :: nat) \<le> 57)"

fun read_nat :: "nat \<Rightarrow> string \<Rightarrow> nat \<times> string" where
  "read_nat acc [] = (acc, [])"
| "read_nat acc (c # cs) =
     (if is_digit c then read_nat (10 * acc + (of_char c - 48)) cs else (acc, c # cs))"

fun read_string :: "string \<Rightarrow> string \<Rightarrow> (string \<times> string) option" where
  "read_string acc [] = None"
| "read_string acc (c # cs) =
     (if c = CHR 0x22 then Some (rev acc, cs)
      else if c = CHR 0x5C then None
      else read_string (c # acc) cs)"

text \<open>The reader; the first argument bounds the nesting and the number of items.\<close>

fun read_value :: "nat \<Rightarrow> string \<Rightarrow> (json \<times> string) option"
and read_elements :: "nat \<Rightarrow> json list \<Rightarrow> string \<Rightarrow> (json \<times> string) option"
and read_members :: "nat \<Rightarrow> obj \<Rightarrow> string \<Rightarrow> (json \<times> string) option" where
  "read_value 0 cs = None"
| "read_value (Suc n) [] = None"
| "read_value (Suc n) (c # cs) =
     (if c = CHR ''n'' then (if take 3 cs = ''ull'' then Some (JNull, drop 3 cs) else None)
      else if c = CHR ''t'' then
        (if take 3 cs = ''rue'' then Some (JBool True, drop 3 cs) else None)
      else if c = CHR ''f'' then
        (if take 4 cs = ''alse'' then Some (JBool False, drop 4 cs) else None)
      else if c = CHR 0x22 then
        (case read_string [] cs of
           None \<Rightarrow> None
         | Some (str, rest) \<Rightarrow> Some (JStr str, rest))
      else if c = CHR ''-'' then
        (case cs of
           [] \<Rightarrow> None
         | d # ds \<Rightarrow>
             (if is_digit d then
                (case read_nat 0 cs of (m, rest) \<Rightarrow> Some (JNum (- int m), rest))
              else None))
      else if is_digit c then
        (case read_nat 0 (c # cs) of (m, rest) \<Rightarrow> Some (JNum (int m), rest))
      else if c = CHR ''['' then
        (case cs of
           [] \<Rightarrow> None
         | d # ds \<Rightarrow> (if d = CHR '']'' then Some (JArr [], ds) else read_elements n [] cs))
      else if c = CHR ''{'' then
        (case cs of
           [] \<Rightarrow> None
         | d # ds \<Rightarrow> (if d = CHR ''}'' then Some (JObj [], ds) else read_members n [] cs))
      else None)"
| "read_elements 0 acc cs = None"
| "read_elements (Suc n) acc cs =
     (case read_value n cs of
        None \<Rightarrow> None
      | Some (v, rest) \<Rightarrow>
          (case rest of
             [] \<Rightarrow> None
           | d # ds \<Rightarrow>
               (if d = CHR '','' then read_elements n (v # acc) ds
                else if d = CHR '']'' then Some (JArr (rev (v # acc)), ds)
                else None)))"
| "read_members 0 acc cs = None"
| "read_members (Suc n) acc cs =
     (case cs of
        [] \<Rightarrow> None
      | q # qs \<Rightarrow>
          (if q \<noteq> CHR 0x22 then None
           else
             (case read_string [] qs of
                None \<Rightarrow> None
              | Some (k, rest0) \<Rightarrow>
                  (case rest0 of
                     [] \<Rightarrow> None
                   | col # cs1 \<Rightarrow>
                       (if col \<noteq> CHR '':'' then None
                        else
                          (case read_value n cs1 of
                             None \<Rightarrow> None
                           | Some (v, rest) \<Rightarrow>
                               (case rest of
                                  [] \<Rightarrow> None
                                | d # ds \<Rightarrow>
                                    (if d = CHR '','' then
                                       read_members n (AList.update k v acc) ds
                                     else if d = CHR ''}'' then
                                       Some (JObj (AList.update k v acc), ds)
                                     else None))))))))"

definition ref_parse :: "string \<Rightarrow> json option" where
  "ref_parse str =
     (case read_value (Suc (length str)) str of
        Some (v, []) \<Rightarrow> Some v
      | _ \<Rightarrow> None)"

definition ref_mnemonic :: string where
  "ref_mnemonic =
     ''abandon abandon abandon abandon abandon abandon abandon abandon abandon abandon abandon about''"

definition ref_seed :: "string \<Rightarrow> bytes" where
  "ref_seed phrase = take 64 (ref_encode phrase @ replicate 64 0)"

definition reference_platform :: platform where
  "reference_platform =
     \<lparr>text_encode = ref_encode,
      text_decode = ref_decode,
      gcm_encrypt = ref_gcm_encrypt,
      gcm_decrypt = ref_gcm_decrypt,
      pbkdf2_sha256 = ref_pbkdf2,
      random_values = ref_random,
      json_stringify = ref_stringify,
      json_parse = ref_parse,
      typed_array_from = (\<lambda>v. Inr []),
      toISOString = (\<lambda>t. ''1970-01-01T00:00:00.000Z''),
      storage_api = True,
      validateMnemonic = (\<lambda>phrase. phrase = ref_mnemonic),
      mnemonicToSeed = (\<lambda>phrase. Inr (ref_seed phrase))\<rparr>"

text \<open>
  The state of a freshly constructed service with the default configuration
  (\<open>DEFAULT_SESSION_TIMEOUT = 30\<close> minutes, \<open>ENCRYPTION_ITERATIONS = 100000\<close>) over an
  empty store.
\<close>

definition initial_state :: state where
  "initial_state =
     \<lparr>currentUserSession = None,
      currentStorageKey = None,
      sessionTimeout = 30 * 60 * 1000,
      encryptionIterations = 100000,
      storage = [],
      clock = 0,
      drawn = 0,
      faults = []\<rparr>"


section \<open>Assumptions on the platform\<close>

text \<open>
  What the results below assume of the platform, each where it is needed: AES-GCM
  decrypts what it encrypted under the same key and nonce; a ciphertext it produced
  never decrypts, under any key, to another plaintext (authentication); the text codec
  reproduces a given string; \<open>JSON.parse\<close> reads back what \<open>JSON.stringify\<close> wrote
  for a given value.
\<close>

definition gcm_correct :: "platform \<Rightarrow> bool" where
  "gcm_correct h = (\<forall>m n p. gcm_decrypt h m n (gcm_encrypt h m n p) = Some p)"

definition gcm_authentic :: "platform \<Rightarrow> bool" where
  "gcm_authentic h =
     (\<forall>m m' n p q. gcm_decrypt h m' n (gcm_encrypt h m n p) = Some q \<longrightarrow> q = p)"

definition text_roundtrip :: "platform \<Rightarrow> string \<Rightarrow> bool" where
  "text_roundtrip h str = (text_decode h (text_encode h str) = str)"

definition json_roundtrip :: "platform \<Rightarrow> json \<Rightarrow> bool" where
  "json_roundtrip h v = (json_parse h (json_stringify h v) = Some v)"

text \<open>\<open>decryptData(encryptData(p, k), k)\<close> and \<open>decryptStorageData(encryptStorageData(v, k), k)\<close>.\<close>

definition roundTrip :: "platform \<Rightarrow> string \<Rightarrow> cryptoKey \<Rightarrow> state \<Rightarrow> error + string" where
  "roundTrip h p k s =
     (case encryptData h p k s of
        (Inl e, s1) \<Rightarrow> Inl e
      | (Inr env, s1) \<Rightarrow> decryptData h env k)"

definition storageRoundTrip :: "platform \<Rightarrow> json \<Rightarrow> cryptoKey \<Rightarrow> state \<Rightarrow> error + json" where
  "storageRoundTrip h v k s =
     (case encryptStorageData h v k s of
        (Inl e, s1) \<Rightarrow> Inl e
      | (Inr env, s1) \<Rightarrow> decryptStorageData h env k)"

section \<open>Concrete inputs\<close>

definition demo_session :: session where
  "demo_session = \<lparr>seedPhrase = ref_mnemonic, timestamp = 0, isActive = True\<rparr>"

text \<open>A session whose age equals the timeout, and one a millisecond older.\<close>

definition boundary_state :: state where
  "boundary_state = initial_state\<lparr>currentUserSession := Some demo_session, clock := 1800000\<rparr>"

definition expired_state :: state where
  "expired_state = initial_state\<lparr>currentUserSession := Some demo_session, clock := 1800001\<rparr>"

text \<open>The key of the reference mnemonic's seed, as \<open>generateKeyFromSeedBytes\<close> makes it.\<close>

definition demo_key :: cryptoKey where
  "demo_key = \<lparr>material = take 32 (ref_seed ref_mnemonic), usages = [Encrypt, Decrypt]\<rparr>"

text \<open>
  The key \<open>storePin\<close> derives from the PIN \<open>1234\<close> (usage \<open>encrypt\<close> only), and the
  reference key restricted to \<open>decrypt\<close>.
\<close>

definition encrypt_only_key :: cryptoKey where
  "encrypt_only_key = pinDerivedKey reference_platform ''1234'' 100000 [Encrypt]"

definition decrypt_only_key :: cryptoKey where
  "decrypt_only_key = demo_key\<lparr>usages := [Decrypt]\<rparr>"

text \<open>
  The object \<open>encryptStorageData\<close> returns for the value \<open>v\<close> under key \<open>k\<close> when its
  nonce is the \<open>d\<close>-th random draw and the time is \<open>t\<close>.
\<close>

definition storageEnvelope :: "platform \<Rightarrow> json \<Rightarrow> cryptoKey \<Rightarrow> nat \<Rightarrow> int \<Rightarrow> json" where
  "storageEnvelope h v k d t =
     JObj [(''encrypted'', JBool True),
           (''version'', JStr ''1.0''),
           (''iv'', bytes_json (random_values h d)),
           (''data'', bytes_json (gcm_encrypt h (material k) (random_values h d)
                       (text_encode h (case v of JStr str \<Rightarrow> str | _ \<Rightarrow> json_stringify h v)))),
           (''timestamp'', JNum t)]"

definition demo_items :: obj where
  "demo_items =
     [(''firstTimeSetup'', JBool False),
      (''pinCode'', JStr ''1234''),
      (''hasEncryptedStorage'', JBool False)]"

definition plain_state :: state where
  "plain_state = initial_state\<lparr>storage := [(''userId'', JStr ''u1'')]\<rparr>"

definition marked_state :: state where
  "marked_state =
     initial_state\<lparr>storage := [(''hasEncryptedStorage'', JBool True), (''userId'', JStr ''u1'')]\<rparr>"

text \<open>
  A credentials blob as \<open>encryptData\<close> makes it under the reference key from the text
  of a document, a store that holds only that blob, and four documents.
\<close>

definition blob_of :: "string \<Rightarrow> json" where
  "blob_of text =
     JObj [(''iv'', bytes_json (ref_random 0)),
           (''data'', bytes_json (ref_gcm_encrypt (material demo_key) (ref_random 0)
                                    (ref_encode text)))]"

definition vault_state :: "string \<Rightarrow> state" where
  "vault_state text = initial_state\<lparr>storage := [(''credentials'', blob_of text)]\<rparr>"

definition array_text :: string where
  "array_text = ''[{\"id\":\"1\"}]''"

definition object_text :: string where
  "object_text = ''{\"credentials\":[{\"id\":\"1\"}],\"walletSeeds\":[{\"name\":\"w\"}]}''"

definition single_text :: string where
  "single_text = ''{\"id\":\"1\"}''"

definition null_text :: string where
  "null_text = ''{\"credentials\":null}''"

text \<open>
  A record is valid when \<open>validateCredential\<close> returns and says so. The storage key,
  when one is resident, may encrypt and decrypt (\<open>generateStorageEncryptionKey\<close> is
  its only source).
\<close>

definition isValid :: "json \<Rightarrow> bool" where
  "isValid cred = (case validateCredential cred of Inl e \<Rightarrow> False | Inr v \<Rightarrow> valid v)"

definition key_ready :: "state \<Rightarrow> bool" where
  "key_ready s =
     (case currentStorageKey s of
        None \<Rightarrow> True
      | Some k \<Rightarrow> Encrypt \<in> set (usages k) \<and> Decrypt \<in> set (usages k))"

text \<open>Import data: one record that lacks every field; one complete and one partial record.\<close>

definition invalid_import :: string where
  "invalid_import = ''{\"credentials\":[{}]}''"

definition mixed_import :: string where
  "mixed_import =
     ''{\"credentials\":[{\"website\":\"example.com\",\"username\":\"a\",\"password\":\"hunter2\"},{\"website\":\"example.org\"}]}''"

definition login_record :: json where
  "login_record =
     JObj [(''website'', JStr ''example.com''), (''username'', JStr ''a''),
           (''password'', JStr ''hunter2'')]"

definition partial_record :: json where
  "partial_record = JObj [(''website'', JStr ''example.org'')]"

section \<open>Session validity\<close>

lemma isSessionValid_fst:
  "fst (isSessionValid s) \<longleftrightarrow>
     (\<exists>sess. currentUserSession s = Some sess \<and> isActive sess
        \<and> clock s - timestamp sess \<le> sessionTimeout s)"
  by (auto simp: isSessionValid_def Let_def split: option.splits)

lemma isSessionValid_expired:
  assumes "currentUserSession s = Some sess" and "isActive sess"
    and "sessionTimeout s < clock s - timestamp sess"
  shows "isSessionValid s = (False, clearUserSession s)"
  using assms by (simp add: isSessionValid_def Let_def)

lemma getCurrentSession_cleared:
  "currentUserSession s = None \<Longrightarrow> getCurrentSession s = (None, s)"
  by (simp add: getCurrentSession_def)

text \<open>
  Claim C3, as the code has it. The check reports the session valid exactly when it
  exists, is active and its age \<open>now - t\<close> is at most the timeout \<open>T\<close>; a check
  that reports the session valid changes nothing, in particular at \<open>now - t = T\<close>.
  When the age of an active session is greater than \<open>T\<close>, the check returns false and
  clears the session and the cached storage key in that same call (and changes nothing
  else), so that \<open>getCurrentSession\<close> returns \<open>null\<close> at any later time.
\<close>

theorem session_valid_iff_and_lazy_expiry:
  "(fst (isSessionValid s) \<longleftrightarrow>
      (\<exists>sess. currentUserSession s = Some sess \<and> isActive sess
         \<and> clock s - timestamp sess \<le> sessionTimeout s))
   \<and> (fst (isSessionValid s) \<longrightarrow> snd (isSessionValid s) = s)
   \<and> (\<forall>sess. currentUserSession s = Some sess \<and> isActive sess
          \<and> clock s - timestamp sess = sessionTimeout s \<longrightarrow>
        isSessionValid s = (True, s))
   \<and> (\<forall>sess. currentUserSession s = Some sess \<and> isActive sess
          \<and> sessionTimeout s < clock s - timestamp sess \<longrightarrow>
        fst (isSessionValid s) = False
        \<and> snd (isSessionValid s) = clearUserSession s
        \<and> currentUserSession (snd (isSessionValid s)) = None
        \<and> currentStorageKey (snd (isSessionValid s)) = None
        \<and> (\<forall>later. fst (getCurrentSession ((snd (isSessionValid s))\<lparr>clock := later\<rparr>)) = None))"
proof (intro conjI allI impI)
  show "fst (isSessionValid s) \<longleftrightarrow>
      (\<exists>sess. currentUserSession s = Some sess \<and> isActive sess
         \<and> clock s - timestamp sess \<le> sessionTimeout s)"
    by (rule isSessionValid_fst)
next
  assume "fst (isSessionValid s)"
  then show "snd (isSessionValid s) = s"
    by (simp add: isSessionValid_def Let_def split: option.splits if_splits)
next
  fix sess
  assume "currentUserSession s = Some sess \<and> isActive sess
            \<and> clock s - timestamp sess = sessionTimeout s"
  then show "isSessionValid s = (True, s)"
    by (simp add: isSessionValid_def Let_def)
next
  fix sess
  assume a: "currentUserSession s = Some sess \<and> isActive sess
               \<and> sessionTimeout s < clock s - timestamp sess"
  then have v: "isSessionValid s = (False, clearUserSession s)"
    by (simp add: isSessionValid_expired)
  show "fst (isSessionValid s) = False" by (simp add: v)
  show "snd (isSessionValid s) = clearUserSession s" by (simp add: v)
  show "currentUserSession (snd (isSessionValid s)) = None"
    by (simp add: v clearUserSession_def)
  show "currentStorageKey (snd (isSessionValid s)) = None"
    by (simp add: v clearUserSession_def)
  fix later
  show "fst (getCurrentSession ((snd (isSessionValid s))\<lparr>clock := later\<rparr>)) = None"
    by (simp add: v clearUserSession_def getCurrentSession_cleared)
qed

theorem session_valid_iff_and_lazy_expiry_witness:
  "currentUserSession expired_state = Some demo_session \<and> isActive demo_session
   \<and> sessionTimeout expired_state < clock expired_state - timestamp demo_session
   \<and> fst (isSessionValid expired_state) = False
   \<and> snd (isSessionValid expired_state) = clearUserSession expired_state
   \<and> currentUserSession (snd (isSessionValid expired_state)) = None
   \<and> currentStorageKey (snd (isSessionValid expired_state)) = None
   \<and> fst (getCurrentSession ((snd (isSessionValid expired_state))\<lparr>clock := 1800002\<rparr>)) = None
   \<and> currentUserSession boundary_state = Some demo_session
   \<and> clock boundary_state - timestamp demo_session = sessionTimeout boundary_state
   \<and> fst (isSessionValid boundary_state)
   \<and> snd (isSessionValid boundary_state) = boundary_state
   \<and> isSessionValid boundary_state = (True, boundary_state)"
proof -
  have h: "currentUserSession expired_state = Some demo_session \<and> isActive demo_session
     \<and> sessionTimeout expired_state < clock expired_state - timestamp demo_session"
    by (simp add: expired_state_def demo_session_def initial_state_def)
  have b: "currentUserSession boundary_state = Some demo_session \<and> isActive demo_session
     \<and> clock boundary_state - timestamp demo_session = sessionTimeout boundary_state"
    by (simp add: boundary_state_def demo_session_def initial_state_def)
  note e = session_valid_iff_and_lazy_expiry [of expired_state]
  note t = session_valid_iff_and_lazy_expiry [of boundary_state]
  from e h have x: "fst (isSessionValid expired_state) = False
     \<and> snd (isSessionValid expired_state) = clearUserSession expired_state
     \<and> currentUserSession (snd (isSessionValid expired_state)) = None
     \<and> currentStorageKey (snd (isSessionValid expired_state)) = None
     \<and> fst (getCurrentSession ((snd (isSessionValid expired_state))\<lparr>clock := 1800002\<rparr>)) = None"
    by blast
  from t b have v: "isSessionValid boundary_state = (True, boundary_state)"
    by blast
  from t b have f: "fst (isSessionValid boundary_state)"
    by (auto simp del: split_paired_Ex)
  with t have k: "snd (isSessionValid boundary_state) = boundary_state"
    by blast
  from h x b v f k show ?thesis by blast
qed

text \<open>
  Claim C3 as stated fails where the age equals the timeout: the elapsed time has
  reached \<open>T\<close>, yet the check returns true, keeps the session, and
  \<open>getCurrentSession\<close> still returns it.
\<close>

theorem session_boundary_counterexample:
  "currentUserSession boundary_state = Some demo_session
   \<and> clock boundary_state - timestamp demo_session = sessionTimeout boundary_state
   \<and> isSessionValid boundary_state = (True, boundary_state)
   \<and> fst (getCurrentSession boundary_state) \<noteq> None"
  by (simp add: boundary_state_def demo_session_def initial_state_def isSessionValid_def
      getCurrentSession_def Let_def)

section \<open>The encryption envelope\<close>

lemma uint8array_bytes_json [simp]: "uint8array h (Some (bytes_json bs)) = Inr bs"
proof -
  have "list_all is_number (map (\<lambda>b. JNum (uint b)) bs)"
    by (induction bs) auto
  moreover have "map number_byte (map (\<lambda>b. JNum (uint b)) bs) = bs"
    by (induction bs) auto
  ultimately show ?thesis
    by (simp add: uint8array_def bytes_json_def)
qed

lemma decryptData_envelope:
  "decryptData h (JObj [(''iv'', bytes_json n), (''data'', bytes_json c)]) k =
     (case subtle_decrypt h k n c of Inl e \<Rightarrow> Inl e | Inr d \<Rightarrow> Inr (text_decode h d))"
  by (simp add: decryptData_def)

lemma encryptData_ok:
  "Encrypt \<in> set (usages k) \<Longrightarrow>
   encryptData h p k s =
     (Inr (JObj [(''iv'', bytes_json (random_values h (drawn s))),
                 (''data'', bytes_json (gcm_encrypt h (material k) (random_values h (drawn s))
                                          (text_encode h p)))]),
      s\<lparr>drawn := Suc (drawn s)\<rparr>)"
  by (simp add: encryptData_def getRandomValues_def subtle_encrypt_def)

lemma roundTrip_ok:
  assumes "Encrypt \<in> set (usages k)" and "Decrypt \<in> set (usages k)" and "gcm_correct h"
  shows "roundTrip h p k s = Inr (text_decode h (text_encode h p))"
  using assms
  by (simp add: roundTrip_def encryptData_ok decryptData_envelope subtle_decrypt_def
      gcm_correct_def)

lemma generateKey_ok:
  "64 \<le> length seed \<Longrightarrow>
   generateKeyFromSeedBytes seed =
     Inr \<lparr>encryptionKey = \<lparr>material = take 32 seed, usages = [Encrypt, Decrypt]\<rparr>,
          privateKey = ''0x'' @ toHexString (take 32 seed),
          publicKey = ''0x'' @ toHexString (take 32 (drop 32 seed))\<rparr>"
  by (simp add: generateKeyFromSeedBytes_def Let_def)

lemma ref_gcm_correct: "gcm_correct reference_platform"
  by (simp add: gcm_correct_def reference_platform_def ref_gcm_decrypt_def ref_gcm_encrypt_def)

lemma ref_gcm_authentic: "gcm_authentic reference_platform"
  by (simp add: gcm_authentic_def reference_platform_def ref_gcm_decrypt_def
      ref_gcm_encrypt_def)

lemma ref_codec [simp]: "ref_decode (ref_encode str) = str"
proof -
  have "char_of (unat (of_nat (of_char c :: nat) :: byte)) = c" for c :: char
    by (simp add: unat_of_nat take_bit_nat_eq_self)
  then show ?thesis
    by (simp add: ref_decode_def ref_encode_def comp_def)
qed

lemma ref_text_roundtrip: "text_roundtrip reference_platform str"
  by (simp add: text_roundtrip_def reference_platform_def)

lemma ref_seed_length: "length (ref_seed phrase) = 64"
  by (simp add: ref_seed_def ref_encode_def)

lemma ref_mnemonicToSeed: "mnemonicToSeed reference_platform phrase = Inr (ref_seed phrase)"
  by (simp add: reference_platform_def)

lemma keysFromMnemonic_ok:
  "mnemonicToSeed h m = Inr seed \<Longrightarrow> 64 \<le> length seed \<Longrightarrow>
   keysFromMnemonic h m =
     Inr \<lparr>encryptionKey = \<lparr>material = take 32 seed, usages = [Encrypt, Decrypt]\<rparr>,
          privateKey = ''0x'' @ toHexString (take 32 seed),
          publicKey = ''0x'' @ toHexString (take 32 (drop 32 seed))\<rparr>"
  by (simp add: keysFromMnemonic_def generateKey_ok)

lemma roundTrip_no_usage:
  assumes "Encrypt \<notin> set (usages k) \<or> Decrypt \<notin> set (usages k)"
  shows "roundTrip h p k s = Inl (Error ''InvalidAccessError'')"
proof (cases "Encrypt \<in> set (usages k)")
  case True
  with assms have "Decrypt \<notin> set (usages k)" by simp
  with True show ?thesis
    by (simp add: roundTrip_def encryptData_ok decryptData_envelope subtle_decrypt_def)
next
  case False
  then show ?thesis
    by (simp add: roundTrip_def encryptData_def getRandomValues_def subtle_encrypt_def)
qed

lemma storage_key_usages:
  "Encrypt \<in> set (usages (generateStorageEncryptionKey h m))
   \<and> Decrypt \<in> set (usages (generateStorageEncryptionKey h m))"
  by (simp add: generateStorageEncryptionKey_def Let_def)

text \<open>
  Claim C1, as the code has it. On a platform whose AES-GCM decrypts what it encrypted:
  for every key \<open>k\<close> whose usages include both \<open>encrypt\<close> and \<open>decrypt\<close> and every
  plaintext \<open>p\<close>, \<open>encryptData\<close> returns an envelope and \<open>decryptData\<close> of it under
  \<open>k\<close> returns the decoding of the encoding of \<open>p\<close>, which is \<open>p\<close> whenever the text
  codec reproduces \<open>p\<close>. In particular, when \<open>bip39.mnemonicToSeed\<close> returns a seed of
  at least 64 bytes for the mnemonic \<open>m\<close> (a \<open>bip39\<close> seed has exactly 64),
  \<open>generateKeyFromSeedBytes\<close> returns such a key, and the key
  \<open>generateStorageEncryptionKey\<close> derives from \<open>m\<close> is such a key. For a key that lacks
  one of the two usages the same-key round trip throws \<open>InvalidAccessError\<close>.
\<close>

theorem encrypt_then_decrypt_recovers_plaintext:
  assumes "gcm_correct h"
  shows "(Encrypt \<in> set (usages k) \<and> Decrypt \<in> set (usages k) \<longrightarrow>
            (\<exists>env s1. encryptData h p k s = (Inr env, s1))
          \<and> roundTrip h p k s = Inr (text_decode h (text_encode h p))
          \<and> (text_roundtrip h p \<longrightarrow> roundTrip h p k s = Inr p))
       \<and> (mnemonicToSeed h m = Inr seed \<and> 64 \<le> length seed \<and> text_roundtrip h p \<longrightarrow>
            (\<exists>ks. keysFromMnemonic h m = Inr ks
               \<and> roundTrip h p (encryptionKey ks) s = Inr p))
       \<and> (text_roundtrip h p \<longrightarrow> roundTrip h p (generateStorageEncryptionKey h m) s = Inr p)
       \<and> (Encrypt \<notin> set (usages k) \<or> Decrypt \<notin> set (usages k) \<longrightarrow>
            roundTrip h p k s = Inl (Error ''InvalidAccessError''))"
proof (intro conjI impI)
  assume u: "Encrypt \<in> set (usages k) \<and> Decrypt \<in> set (usages k)"
  then show "\<exists>env s1. encryptData h p k s = (Inr env, s1)"
    by (simp add: encryptData_ok)
  from u assms show r: "roundTrip h p k s = Inr (text_decode h (text_encode h p))"
    by (simp add: roundTrip_ok)
  assume "text_roundtrip h p"
  with r show "roundTrip h p k s = Inr p"
    by (simp add: text_roundtrip_def)
next
  assume a: "mnemonicToSeed h m = Inr seed \<and> 64 \<le> length seed \<and> text_roundtrip h p"
  then have "keysFromMnemonic h m =
     Inr \<lparr>encryptionKey = \<lparr>material = take 32 seed, usages = [Encrypt, Decrypt]\<rparr>,
          privateKey = ''0x'' @ toHexString (take 32 seed),
          publicKey = ''0x'' @ toHexString (take 32 (drop 32 seed))\<rparr>"
    by (simp add: keysFromMnemonic_ok)
  moreover from assms a
  have "roundTrip h p \<lparr>material = take 32 seed, usages = [Encrypt, Decrypt]\<rparr> s = Inr p"
    by (simp add: roundTrip_ok text_roundtrip_def)
  ultimately show "\<exists>ks. keysFromMnemonic h m = Inr ks
               \<and> roundTrip h p (encryptionKey ks) s = Inr p"
    by simp
next
  assume "text_roundtrip h p"
  with assms storage_key_usages [of h m]
  show "roundTrip h p (generateStorageEncryptionKey h m) s = Inr p"
    by (simp add: roundTrip_ok text_roundtrip_def)
next
  assume "Encrypt \<notin> set (usages k) \<or> Decrypt \<notin> set (usages k)"
  then show "roundTrip h p k s = Inl (Error ''InvalidAccessError'')"
    by (rule roundTrip_no_usage)
qed

theorem encrypt_then_decrypt_recovers_plaintext_witness:
  "gcm_correct reference_platform \<and> text_roundtrip reference_platform ''hunter2''
   \<and> Encrypt \<in> set (usages demo_key) \<and> Decrypt \<in> set (usages demo_key)
   \<and> mnemonicToSeed reference_platform ref_mnemonic = Inr (ref_seed ref_mnemonic)
   \<and> 64 \<le> length (ref_seed ref_mnemonic)
   \<and> roundTrip reference_platform ''hunter2'' demo_key initial_state = Inr ''hunter2''
   \<and> (\<exists>ks. keysFromMnemonic reference_platform ref_mnemonic = Inr ks
         \<and> roundTrip reference_platform ''hunter2'' (encryptionKey ks) initial_state
             = Inr ''hunter2'')
   \<and> roundTrip reference_platform ''hunter2''
        (generateStorageEncryptionKey reference_platform ref_mnemonic) initial_state
       = Inr ''hunter2''
   \<and> Decrypt \<notin> set (usages encrypt_only_key)
   \<and> roundTrip reference_platform ''hunter2'' encrypt_only_key initial_state
       = Inl (Error ''InvalidAccessError'')"
proof -
  have u: "Encrypt \<in> set (usages demo_key) \<and> Decrypt \<in> set (usages demo_key)"
    by (simp add: demo_key_def)
  have l1: "mnemonicToSeed reference_platform ref_mnemonic = Inr (ref_seed ref_mnemonic)"
    by (rule ref_mnemonicToSeed)
  have l2: "64 \<le> length (ref_seed ref_mnemonic)"
    by (simp add: ref_seed_length)
  have n: "Decrypt \<notin> set (usages encrypt_only_key)"
    by (simp add: encrypt_only_key_def pinDerivedKey_def)
  note rt = ref_text_roundtrip [of "''hunter2''"]
  note t = encrypt_then_decrypt_recovers_plaintext [OF ref_gcm_correct,
      where k = demo_key and p = "''hunter2''" and s = initial_state and m = ref_mnemonic
        and seed = "ref_seed ref_mnemonic"]
  note tn = encrypt_then_decrypt_recovers_plaintext [OF ref_gcm_correct,
      where k = encrypt_only_key and p = "''hunter2''" and s = initial_state]
  note a = t [THEN conjunct1, rule_format, OF u, THEN conjunct2, THEN conjunct2, rule_format,
      OF rt]
  note b = t [THEN conjunct2, THEN conjunct1, rule_format, OF conjI [OF l1 conjI [OF l2 rt]]]
  note c = t [THEN conjunct2, THEN conjunct2, THEN conjunct1, rule_format, OF rt]
  note d = tn [THEN conjunct2, THEN conjunct2, THEN conjunct2, rule_format, OF disjI2 [OF n]]
  from ref_gcm_correct rt u [THEN conjunct1] u [THEN conjunct2] l1 l2 a b c n d
  show ?thesis by (intro conjI)
qed

text \<open>
  Claim C1 as stated fails for a key that lacks a usage: the key \<open>storePin\<close> derives
  from the PIN is imported with \<open>['encrypt']\<close> only, \<open>encryptData\<close> returns an envelope
  under it, and \<open>decryptData\<close> of that envelope under the same key throws.
\<close>

theorem encrypt_only_key_counterexample:
  "fst (encryptData reference_platform ''hunter2'' encrypt_only_key initial_state)
     = Inr (JObj [(''iv'', bytes_json (ref_random 0)),
                  (''data'', bytes_json (ref_gcm_encrypt (material encrypt_only_key) (ref_random 0)
                                           (ref_encode ''hunter2'')))])
   \<and> roundTrip reference_platform ''hunter2'' encrypt_only_key initial_state
       = Inl (Error ''InvalidAccessError'')"
proof -
  have e: "Encrypt \<in> set (usages encrypt_only_key)" "Decrypt \<notin> set (usages encrypt_only_key)"
    by (simp_all add: encrypt_only_key_def pinDerivedKey_def)
  have "fst (encryptData reference_platform ''hunter2'' encrypt_only_key initial_state)
     = Inr (JObj [(''iv'', bytes_json (ref_random 0)),
                  (''data'', bytes_json (ref_gcm_encrypt (material encrypt_only_key) (ref_random 0)
                                           (ref_encode ''hunter2'')))])"
    by (simp add: encryptData_ok [OF e(1)] reference_platform_def initial_state_def)
  moreover have "roundTrip reference_platform ''hunter2'' encrypt_only_key initial_state
       = Inl (Error ''InvalidAccessError'')"
    using e(2) by (simp add: roundTrip_no_usage)
  ultimately show ?thesis by (intro conjI)
qed

section \<open>Secure storage values\<close>

lemma encryptStorageData_ok:
  "Encrypt \<in> set (usages k) \<Longrightarrow>
   encryptStorageData h v k s =
     (Inr (storageEnvelope h v k (drawn s) (clock s)), s\<lparr>drawn := Suc (drawn s)\<rparr>)"
  by (simp add: encryptStorageData_def getRandomValues_def subtle_encrypt_def
      storageEnvelope_def Let_def)

lemma truthy_bytes_json [simp]: "truthy (bytes_json bs)"
  by (simp add: bytes_json_def)

lemma decryptStorageData_envelope:
  assumes "Decrypt \<in> set (usages k)" and "gcm_correct h"
  shows "decryptStorageData h (storageEnvelope h v k d t) k =
     (let str = text_decode h (text_encode h (case v of JStr x \<Rightarrow> x | _ \<Rightarrow> json_stringify h v))
      in case json_parse h str of Some j \<Rightarrow> Inr j | None \<Rightarrow> Inr (JStr str))"
  using assms
  by (simp add: decryptStorageData_def storageEnvelope_def subtle_decrypt_def gcm_correct_def
      Let_def)

lemma ref_parse_123: "json_parse reference_platform ''123'' = Some (JNum 123)"
  by code_simp

lemma ref_parse_true: "json_parse reference_platform ''true'' = Some (JBool True)"
  by code_simp

lemma ref_parse_hello: "json_parse reference_platform ''hello'' = None"
  by code_simp

lemma ref_roundtrip_object:
  "json_roundtrip reference_platform (JObj [(''nested'', JArr [JNum 1, JBool False, JNull])])"
  by code_simp

lemma demo_key_usages: "Encrypt \<in> set (usages demo_key) \<and> Decrypt \<in> set (usages demo_key)"
  by (simp add: demo_key_def)

lemma storageRoundTrip_ok:
  assumes "gcm_correct h" and "Encrypt \<in> set (usages k)" and "Decrypt \<in> set (usages k)"
  shows "storageRoundTrip h v k s =
     Inr (let str = text_decode h
                      (text_encode h (case v of JStr x \<Rightarrow> x | _ \<Rightarrow> json_stringify h v))
          in case json_parse h str of Some j \<Rightarrow> j | None \<Rightarrow> JStr str)"
  using assms
  by (simp add: storageRoundTrip_def encryptStorageData_ok decryptStorageData_envelope Let_def
      split: option.splits)

lemma storageRoundTrip_no_encrypt:
  "Encrypt \<notin> set (usages k) \<Longrightarrow>
   storageRoundTrip h v k s = Inl (Error ''Failed to encrypt storage data'')"
  by (simp add: storageRoundTrip_def encryptStorageData_def getRandomValues_def
      subtle_encrypt_def Let_def)

lemma storageRoundTrip_no_decrypt:
  "Encrypt \<in> set (usages k) \<Longrightarrow> Decrypt \<notin> set (usages k) \<Longrightarrow>
   storageRoundTrip h v k s = Inl decrypt_failed"
  by (simp add: storageRoundTrip_def encryptStorageData_ok storageEnvelope_def
      decryptStorageData_def subtle_decrypt_def)

text \<open>
  Claim C10, as the code has it. On a platform whose AES-GCM decrypts what it
  encrypted, and for a key \<open>k\<close> whose usages include both \<open>encrypt\<close> and \<open>decrypt\<close>:
  \<open>decryptStorageData(encryptStorageData(v, k), k)\<close> returns \<open>JSON.parse\<close> of the
  decoded text of \<open>v\<close> (\<open>v\<close> itself when it is a string, \<open>JSON.stringify(v)\<close>
  otherwise) when that parses, and the decoded text as a string when it does not. So a
  string \<open>v\<close> that the text codec reproduces comes back as \<open>JSON.parse(v)\<close> when it
  parses and as \<open>v\<close> itself only when it does not, and a value that is not a string
  comes back equal to itself when \<open>JSON.parse\<close> reads back what \<open>JSON.stringify\<close>
  wrote for it and the codec reproduces that text. With a key that lacks \<open>encrypt\<close>
  the round trip throws \<open>Failed to encrypt storage data\<close>; with one that has
  \<open>encrypt\<close> and lacks \<open>decrypt\<close> it throws the decryption error.
\<close>

theorem storage_value_round_trip:
  assumes "gcm_correct h"
  shows "(Encrypt \<in> set (usages k) \<and> Decrypt \<in> set (usages k) \<longrightarrow>
            storageRoundTrip h v k s =
              Inr (let str = text_decode h
                               (text_encode h (case v of JStr x \<Rightarrow> x | _ \<Rightarrow> json_stringify h v))
                   in case json_parse h str of Some j \<Rightarrow> j | None \<Rightarrow> JStr str))
       \<and> (\<forall>str. Encrypt \<in> set (usages k) \<and> Decrypt \<in> set (usages k)
              \<and> v = JStr str \<and> text_roundtrip h str \<longrightarrow>
            storageRoundTrip h v k s =
              Inr (case json_parse h str of Some j \<Rightarrow> j | None \<Rightarrow> JStr str))
       \<and> (Encrypt \<in> set (usages k) \<and> Decrypt \<in> set (usages k)
            \<and> (\<forall>str. v \<noteq> JStr str) \<and> text_roundtrip h (json_stringify h v) \<and> json_roundtrip h v
            \<longrightarrow> storageRoundTrip h v k s = Inr v)
       \<and> (Encrypt \<notin> set (usages k) \<longrightarrow>
            storageRoundTrip h v k s = Inl (Error ''Failed to encrypt storage data''))
       \<and> (Encrypt \<in> set (usages k) \<and> Decrypt \<notin> set (usages k) \<longrightarrow>
            storageRoundTrip h v k s = Inl decrypt_failed)"
proof (intro conjI allI impI)
  assume "Encrypt \<in> set (usages k) \<and> Decrypt \<in> set (usages k)"
  with assms show "storageRoundTrip h v k s =
              Inr (let str = text_decode h
                               (text_encode h (case v of JStr x \<Rightarrow> x | _ \<Rightarrow> json_stringify h v))
                   in case json_parse h str of Some j \<Rightarrow> j | None \<Rightarrow> JStr str)"
    by (simp add: storageRoundTrip_ok)
next
  fix str
  assume a: "Encrypt \<in> set (usages k) \<and> Decrypt \<in> set (usages k)
              \<and> v = JStr str \<and> text_roundtrip h str"
  with assms show "storageRoundTrip h v k s =
              Inr (case json_parse h str of Some j \<Rightarrow> j | None \<Rightarrow> JStr str)"
    by (simp add: storageRoundTrip_ok text_roundtrip_def)
next
  assume a: "Encrypt \<in> set (usages k) \<and> Decrypt \<in> set (usages k)
            \<and> (\<forall>str. v \<noteq> JStr str) \<and> text_roundtrip h (json_stringify h v) \<and> json_roundtrip h v"
  then have "(case v of JStr x \<Rightarrow> x | _ \<Rightarrow> json_stringify h v) = json_stringify h v"
    by (cases v) auto
  with a assms show "storageRoundTrip h v k s = Inr v"
    by (simp add: storageRoundTrip_ok text_roundtrip_def json_roundtrip_def)
next
  assume "Encrypt \<notin> set (usages k)"
  then show "storageRoundTrip h v k s = Inl (Error ''Failed to encrypt storage data'')"
    by (rule storageRoundTrip_no_encrypt)
next
  assume "Encrypt \<in> set (usages k) \<and> Decrypt \<notin> set (usages k)"
  then show "storageRoundTrip h v k s = Inl decrypt_failed"
    by (simp add: storageRoundTrip_no_decrypt)
qed

theorem storage_value_round_trip_witness:
  "gcm_correct reference_platform
   \<and> Encrypt \<in> set (usages demo_key) \<and> Decrypt \<in> set (usages demo_key)
   \<and> text_roundtrip reference_platform ''123''
   \<and> storageRoundTrip reference_platform (JStr ''123'') demo_key initial_state = Inr (JNum 123)
   \<and> storageRoundTrip reference_platform (JStr ''true'') demo_key initial_state
       = Inr (JBool True)
   \<and> storageRoundTrip reference_platform (JStr ''hello'') demo_key initial_state
       = Inr (JStr ''hello'')
   \<and> json_roundtrip reference_platform (JObj [(''nested'', JArr [JNum 1, JBool False, JNull])])
   \<and> storageRoundTrip reference_platform
         (JObj [(''nested'', JArr [JNum 1, JBool False, JNull])]) demo_key initial_state
       = Inr (JObj [(''nested'', JArr [JNum 1, JBool False, JNull])])
   \<and> Encrypt \<notin> set (usages decrypt_only_key)
   \<and> storageRoundTrip reference_platform (JStr ''123'') decrypt_only_key initial_state
       = Inl (Error ''Failed to encrypt storage data'')
   \<and> Encrypt \<in> set (usages encrypt_only_key) \<and> Decrypt \<notin> set (usages encrypt_only_key)
   \<and> storageRoundTrip reference_platform (JStr ''123'') encrypt_only_key initial_state
       = Inl decrypt_failed"
proof -
  note u = demo_key_usages
  note rt = storage_value_round_trip [OF ref_gcm_correct]
  note str = rt [THEN conjunct2, THEN conjunct1, rule_format]
  have a: "storageRoundTrip reference_platform (JStr ''123'') demo_key initial_state
             = Inr (JNum 123)"
    using str [of demo_key "JStr ''123''" "''123''" initial_state] u
      ref_text_roundtrip [of "''123''"] ref_parse_123
    by simp
  have b: "storageRoundTrip reference_platform (JStr ''true'') demo_key initial_state
             = Inr (JBool True)"
    using str [of demo_key "JStr ''true''" "''true''" initial_state] u
      ref_text_roundtrip [of "''true''"] ref_parse_true
    by simp
  have c: "storageRoundTrip reference_platform (JStr ''hello'') demo_key initial_state
             = Inr (JStr ''hello'')"
    using str [of demo_key "JStr ''hello''" "''hello''" initial_state] u
      ref_text_roundtrip [of "''hello''"] ref_parse_hello
    by simp
  have d: "storageRoundTrip reference_platform
         (JObj [(''nested'', JArr [JNum 1, JBool False, JNull])]) demo_key initial_state
       = Inr (JObj [(''nested'', JArr [JNum 1, JBool False, JNull])])"
    using rt [THEN conjunct2, THEN conjunct2, THEN conjunct1, rule_format,
        of demo_key "JObj [(''nested'', JArr [JNum 1, JBool False, JNull])]" initial_state]
      u ref_text_roundtrip ref_roundtrip_object
    by simp
  have n: "Encrypt \<notin> set (usages decrypt_only_key)"
    by (simp add: decrypt_only_key_def)
  have m: "Encrypt \<in> set (usages encrypt_only_key) \<and> Decrypt \<notin> set (usages encrypt_only_key)"
    by (simp add: encrypt_only_key_def pinDerivedKey_def)
  note e = rt [THEN conjunct2, THEN conjunct2, THEN conjunct2, THEN conjunct1, rule_format,
      OF n, of "JStr ''123''" initial_state]
  note f = rt [THEN conjunct2, THEN conjunct2, THEN conjunct2, THEN conjunct2, rule_format,
      OF m, of "JStr ''123''" initial_state]
  from ref_gcm_correct u [THEN conjunct1] u [THEN conjunct2] ref_text_roundtrip [of "''123''"]
    a b c ref_roundtrip_object d n e m [THEN conjunct1] m [THEN conjunct2] f
  show ?thesis by (intro conjI)
qed

text \<open>
  Claim C10 as stated fails for a key that lacks a usage: under the reference key
  restricted to \<open>decrypt\<close> the round trip of the string \<open>123\<close> throws in
  \<open>encryptStorageData\<close> and returns neither \<open>123\<close> nor the string.
\<close>

theorem storage_round_trip_decrypt_only_counterexample:
  "storageRoundTrip reference_platform (JStr ''123'') decrypt_only_key initial_state
     = Inl (Error ''Failed to encrypt storage data'')"
  by (simp add: storageRoundTrip_no_encrypt decrypt_only_key_def)

section \<open>Writing through the secure storage wrapper\<close>

lemma map_of_assign:
  "map_of (assign b t) k = (case map_of (rev b) k of Some v \<Rightarrow> Some v | None \<Rightarrow> map_of t k)"
proof (induction b arbitrary: t)
  case Nil
  then show ?case by (simp add: assign_def)
next
  case (Cons kv b)
  have "assign (kv # b) t = assign b (AList.update (fst kv) (snd kv) t)"
    by (simp add: assign_def)
  then show ?case
    using Cons.IH [of "AList.update (fst kv) (snd kv) t"]
    by (cases kv) (auto simp: update_conv' map_add_def split: option.splits)
qed

lemma distinct_stamp: "distinct (map fst b) \<Longrightarrow> distinct (map fst (stamp b))"
  by (simp add: stamp_def distinct_update)

lemma map_of_stamp:
  "map_of (stamp b) = (map_of b)(''hasEncryptedStorage'' \<mapsto> JBool True, ''storageVersion'' \<mapsto> JStr ''1.0'')"
  by (simp add: stamp_def update_conv')

lemma map_of_rev_distinct: "distinct (map fst b) \<Longrightarrow> map_of (rev b) = map_of b"
  by (metis distinct_rev map_of_inject_set rev_map set_rev)

lemma map_of_assign_distinct:
  "distinct (map fst b) \<Longrightarrow> map_of (assign b t) = map_of t ++ map_of b"
  by (rule ext) (simp add: map_of_assign map_of_rev_distinct map_add_def split: option.splits)

lemma chrome_storage_get_ok:
  "faults s = [] \<Longrightarrow>
   chrome_storage_get keys s =
     (Inr (case keys of None \<Rightarrow> storage s
           | Some ks \<Rightarrow> filter (\<lambda>kv. fst kv \<in> set ks) (storage s)), s)"
  by (simp add: chrome_storage_get_def lastError_def)

lemma chrome_storage_set_ok:
  "faults s = [] \<Longrightarrow>
   chrome_storage_set items s = (Inr (), s\<lparr>storage := assign items (storage s)\<rparr>)"
  by (simp add: chrome_storage_set_def lastError_def)

lemma encryptItems_returns:
  "Encrypt \<in> set (usages k) \<Longrightarrow>
   \<exists>enc d. encryptItems h k items acc s = (Inr enc, s\<lparr>drawn := d\<rparr>)"
proof (induction items arbitrary: acc s)
  case Nil
  have "s = s\<lparr>drawn := drawn s\<rparr>" by simp
  then show ?case by (metis encryptItems.simps(1))
next
  case (Cons kv items)
  obtain key v where kv: "kv = (key, v)" by (cases kv)
  show ?case
  proof (cases "key \<in> set skipEncryption")
    case True
    with Cons kv show ?thesis by simp
  next
    case False
    from Cons.IH [OF Cons.prems, of "AList.update key (storageEnvelope h v k (drawn s) (clock s)) acc"
        "s\<lparr>drawn := Suc (drawn s)\<rparr>"]
    obtain enc d where "encryptItems h k items
        (AList.update key (storageEnvelope h v k (drawn s) (clock s)) acc)
        (s\<lparr>drawn := Suc (drawn s)\<rparr>) = (Inr enc, s\<lparr>drawn := d\<rparr>)"
      by auto
    with False kv Cons.prems show ?thesis
      by (auto simp: encryptStorageData_ok)
  qed
qed

lemma encryptItems_keys:
  "encryptItems h k items acc s = (Inr enc, s') \<Longrightarrow>
   fst ` set enc = fst ` set acc \<union> fst ` set items"
proof (induction items arbitrary: acc s)
  case Nil
  then show ?case by simp
next
  case (Cons kv items)
  obtain key v where kv: "kv = (key, v)" by (cases kv)
  show ?case
  proof (cases "key \<in> set skipEncryption")
    case True
    with Cons.prems kv have "encryptItems h k items (AList.update key v acc) s = (Inr enc, s')"
      by simp
    from Cons.IH [OF this] kv show ?thesis by (auto simp: dom_update)
  next
    case False
    with Cons.prems kv obtain e s1 where
      "encryptItems h k items (AList.update key e acc) s1 = (Inr enc, s')"
      by (auto split: prod.splits sum.splits)
    from Cons.IH [OF this] kv show ?thesis by (auto simp: dom_update)
  qed
qed

lemma encryptItems_distinct:
  "encryptItems h k items acc s = (Inr enc, s') \<Longrightarrow> distinct (map fst acc) \<Longrightarrow>
   distinct (map fst enc)"
proof (induction items arbitrary: acc s)
  case Nil
  then show ?case by simp
next
  case (Cons kv items)
  obtain key v where kv: "kv = (key, v)" by (cases kv)
  show ?case
  proof (cases "key \<in> set skipEncryption")
    case True
    with Cons.prems kv have "encryptItems h k items (AList.update key v acc) s = (Inr enc, s')"
      by simp
    from Cons.IH [OF this] Cons.prems show ?thesis by (simp add: distinct_update)
  next
    case False
    with Cons.prems kv obtain e s1 where
      "encryptItems h k items (AList.update key e acc) s1 = (Inr enc, s')"
      by (auto split: prod.splits sum.splits)
    from Cons.IH [OF this] Cons.prems show ?thesis by (simp add: distinct_update)
  qed
qed

lemma encryptItems_other:
  "encryptItems h k items acc s = (Inr enc, s') \<Longrightarrow> key \<notin> fst ` set items \<Longrightarrow>
   map_of enc key = map_of acc key"
proof (induction items arbitrary: acc s)
  case Nil
  then show ?case by simp
next
  case (Cons kv items)
  obtain key' v where kv: "kv = (key', v)" by (cases kv)
  with Cons.prems have ne: "key \<noteq> key'" and nin: "key \<notin> fst ` set items" by auto
  show ?case
  proof (cases "key' \<in> set skipEncryption")
    case True
    with Cons.prems kv have "encryptItems h k items (AList.update key' v acc) s = (Inr enc, s')"
      by simp
    from Cons.IH [OF this nin] ne show ?thesis by (simp add: update_conv')
  next
    case False
    with Cons.prems kv obtain e s1 where
      "encryptItems h k items (AList.update key' e acc) s1 = (Inr enc, s')"
      by (auto split: prod.splits sum.splits)
    from Cons.IH [OF this nin] ne show ?thesis by (simp add: update_conv')
  qed
qed

lemma encryptStorageData_clock:
  "encryptStorageData h v k s = (r, s1) \<Longrightarrow> clock s1 = clock s"
  by (auto simp: encryptStorageData_def getRandomValues_def Let_def split: sum.splits)

lemma encryptItems_values:
  assumes "Encrypt \<in> set (usages k)"
  shows "encryptItems h k items acc s = (Inr enc, s') \<Longrightarrow> distinct (map fst items) \<Longrightarrow>
   (key, v) \<in> set items \<Longrightarrow>
   (if key \<in> set skipEncryption then map_of enc key = Some v
    else \<exists>d. map_of enc key = Some (storageEnvelope h v k d (clock s)))"
proof (induction items arbitrary: acc s)
  case Nil
  then show ?case by simp
next
  case (Cons kv items)
  obtain key' v' where kv: "kv = (key', v')" by (cases kv)
  from Cons.prems kv have d: "distinct (map fst items)" and nin: "key' \<notin> fst ` set items"
    by auto
  show ?case
  proof (cases "key' \<in> set skipEncryption")
    case True
    with Cons.prems kv have run: "encryptItems h k items (AList.update key' v' acc) s = (Inr enc, s')"
      by simp
    show ?thesis
    proof (cases "(key, v) \<in> set items")
      case True
      from Cons.IH [OF run d True] show ?thesis .
    next
      case False
      with Cons.prems kv have eq: "key = key'" "v = v'" by auto
      from encryptItems_other [OF run nin] eq \<open>key' \<in> set skipEncryption\<close>
      show ?thesis by (simp add: update_conv')
    qed
  next
    case False
    let ?e = "storageEnvelope h v' k (drawn s) (clock s)"
    from False Cons.prems kv assms
    have run: "encryptItems h k items (AList.update key' ?e acc) (s\<lparr>drawn := Suc (drawn s)\<rparr>)
                 = (Inr enc, s')"
      by (simp add: encryptStorageData_ok)
    show ?thesis
    proof (cases "(key, v) \<in> set items")
      case True
      from Cons.IH [OF run d True] show ?thesis by (auto split: if_splits)
    next
      case False
      with Cons.prems kv have eq: "key = key'" "v = v'" by auto
      from encryptItems_other [OF run nin] eq \<open>key' \<notin> set skipEncryption\<close>
      show ?thesis by (auto simp: update_conv')
    qed
  qed
qed

lemma secureStorageSet_batch:
  assumes "Encrypt \<in> set (usages k)" and "distinct (map fst items)" and "faults s = []"
  shows "\<exists>batch d.
      secureStorageSet h items k s
        = (Inr (), s\<lparr>drawn := d, storage := assign batch (storage s)\<rparr>)
    \<and> fst ` set batch = fst ` set items \<union> {''hasEncryptedStorage'', ''storageVersion''}
    \<and> (\<forall>key v. (key, v) \<in> set items \<longrightarrow>
          (key = ''firstTimeSetup'' \<longrightarrow> map_of batch key = Some v)
        \<and> (key \<notin> set skipEncryption \<longrightarrow>
             (\<exists>n. map_of batch key = Some (storageEnvelope h v k n (clock s)))))
    \<and> map_of batch ''hasEncryptedStorage'' = Some (JBool True)
    \<and> map_of batch ''storageVersion'' = Some (JStr ''1.0'')
    \<and> (\<forall>key. map_of (assign batch (storage s)) key
               = (case map_of batch key of Some v \<Rightarrow> Some v | None \<Rightarrow> map_of (storage s) key))"
proof -
  from encryptItems_returns [OF assms(1)] obtain enc d
    where run: "encryptItems h k items [] s = (Inr enc, s\<lparr>drawn := d\<rparr>)"
    by blast
  let ?batch = "stamp enc"
  have dist: "distinct (map fst ?batch)"
    using encryptItems_distinct [OF run] by (simp add: distinct_stamp)
  have set: "secureStorageSet h items k s
        = (Inr (), s\<lparr>drawn := d, storage := assign ?batch (storage s)\<rparr>)"
    using run assms(3) by (simp add: secureStorageSet_def chrome_storage_set_ok)
  have keys: "fst ` set ?batch = fst ` set items \<union> {''hasEncryptedStorage'', ''storageVersion''}"
    using encryptItems_keys [OF run] by (auto simp: stamp_def dom_update)
  have vals: "(key = ''firstTimeSetup'' \<longrightarrow> map_of ?batch key = Some v)
        \<and> (key \<notin> set skipEncryption \<longrightarrow>
             (\<exists>n. map_of ?batch key = Some (storageEnvelope h v k n (clock s))))"
    if "(key, v) \<in> set items" for key v
    using encryptItems_values [OF assms(1) run assms(2) that]
    by (auto simp: map_of_stamp skipEncryption_def)
  have m1: "map_of ?batch ''hasEncryptedStorage'' = Some (JBool True)"
    by (simp add: map_of_stamp)
  have m2: "map_of ?batch ''storageVersion'' = Some (JStr ''1.0'')"
    by (simp add: map_of_stamp)
  have st: "map_of (assign ?batch (storage s)) key
               = (case map_of ?batch key of Some v \<Rightarrow> Some v | None \<Rightarrow> map_of (storage s) key)"
    for key
    by (simp add: map_of_assign_distinct [OF dist] map_add_def)
  from set keys vals m1 m2 st show ?thesis by blast
qed

text \<open>
  Claim C5. With a key that may encrypt, an \<open>items\<close> object (its keys distinct) and
  the store accepting the write, \<open>secureStorageSet\<close> writes one batch into the store:
  its keys are those of \<open>items\<close> and the two markers; the value of \<open>firstTimeSetup\<close> is
  the caller's, unchanged; the value of every key other than \<open>firstTimeSetup\<close>,
  \<open>hasEncryptedStorage\<close> and \<open>storageVersion\<close> is the envelope \<open>encryptStorageData\<close>
  makes of the caller's value under that key; and \<open>hasEncryptedStorage\<close> is \<open>true\<close> and
  \<open>storageVersion\<close> is \<open>'1.0'\<close> whatever the caller supplied for them. The store
  afterwards holds the batch's value at each of its keys and its old value elsewhere.
\<close>

theorem secureStorageSet_written_batch:
  assumes "Encrypt \<in> set (usages k)" and "distinct (map fst items)" and "faults s = []"
  shows "\<exists>batch d.
      secureStorageSet h items k s
        = (Inr (), s\<lparr>drawn := d, storage := assign batch (storage s)\<rparr>)
    \<and> fst ` set batch = fst ` set items \<union> {''hasEncryptedStorage'', ''storageVersion''}
    \<and> (\<forall>key v. (key, v) \<in> set items \<longrightarrow>
          (key = ''firstTimeSetup'' \<longrightarrow> map_of batch key = Some v)
        \<and> (key \<noteq> ''firstTimeSetup'' \<and> key \<noteq> ''hasEncryptedStorage''
             \<and> key \<noteq> ''storageVersion'' \<longrightarrow>
             (\<exists>n. map_of batch key = Some (storageEnvelope h v k n (clock s)))))
    \<and> map_of batch ''hasEncryptedStorage'' = Some (JBool True)
    \<and> map_of batch ''storageVersion'' = Some (JStr ''1.0'')
    \<and> (\<forall>key. map_of (assign batch (storage s)) key
               = (case map_of batch key of Some v \<Rightarrow> Some v | None \<Rightarrow> map_of (storage s) key))"
proof -
  have sk: "key \<notin> set skipEncryption \<longleftrightarrow>
      key \<noteq> ''firstTimeSetup'' \<and> key \<noteq> ''hasEncryptedStorage'' \<and> key \<noteq> ''storageVersion''"
    for key
    by (simp add: skipEncryption_def)
  from secureStorageSet_batch [OF assms, of h] show ?thesis
    by (simp only: sk)
qed

theorem secureStorageSet_written_batch_witness:
  "Encrypt \<in> set (usages demo_key) \<and> distinct (map fst demo_items) \<and> faults initial_state = []
   \<and> (\<exists>batch d.
         secureStorageSet reference_platform demo_items demo_key initial_state
           = (Inr (), initial_state\<lparr>drawn := d, storage := assign batch (storage initial_state)\<rparr>)
       \<and> map_of batch ''firstTimeSetup'' = Some (JBool False)
       \<and> (\<exists>n. map_of batch ''pinCode''
               = Some (storageEnvelope reference_platform (JStr ''1234'') demo_key n
                         (clock initial_state)))
       \<and> map_of batch ''hasEncryptedStorage'' = Some (JBool True)
       \<and> map_of batch ''storageVersion'' = Some (JStr ''1.0''))"
proof -
  have u: "Encrypt \<in> set (usages demo_key)" by (simp add: demo_key_def)
  have d: "distinct (map fst demo_items)" by (simp add: demo_items_def)
  have f: "faults initial_state = []" by (simp add: initial_state_def)
  have m1: "(''firstTimeSetup'', JBool False) \<in> set demo_items" by (simp add: demo_items_def)
  have m2: "(''pinCode'', JStr ''1234'') \<in> set demo_items" by (simp add: demo_items_def)
  have n2: "''pinCode'' \<noteq> ''firstTimeSetup'' \<and> ''pinCode'' \<noteq> ''hasEncryptedStorage''
             \<and> ''pinCode'' \<noteq> ''storageVersion''"
    by simp
  from secureStorageSet_written_batch [OF u d f, of reference_platform]
  obtain batch dr where
    w: "secureStorageSet reference_platform demo_items demo_key initial_state
          = (Inr (), initial_state\<lparr>drawn := dr, storage := assign batch (storage initial_state)\<rparr>)"
    and v: "\<forall>key v. (key, v) \<in> set demo_items \<longrightarrow>
          (key = ''firstTimeSetup'' \<longrightarrow> map_of batch key = Some v)
        \<and> (key \<noteq> ''firstTimeSetup'' \<and> key \<noteq> ''hasEncryptedStorage''
             \<and> key \<noteq> ''storageVersion'' \<longrightarrow>
             (\<exists>n. map_of batch key
                = Some (storageEnvelope reference_platform v demo_key n (clock initial_state))))"
    and h: "map_of batch ''hasEncryptedStorage'' = Some (JBool True)"
    and sv: "map_of batch ''storageVersion'' = Some (JStr ''1.0'')"
    by (elim exE conjE)
  from v [rule_format, OF m1] have a: "map_of batch ''firstTimeSetup'' = Some (JBool False)"
    by simp
  from v [rule_format, OF m2, THEN conjunct2, rule_format, OF n2]
  have b: "\<exists>n. map_of batch ''pinCode''
               = Some (storageEnvelope reference_platform (JStr ''1234'') demo_key n
                         (clock initial_state))" .
  have "\<exists>batch d.
         secureStorageSet reference_platform demo_items demo_key initial_state
           = (Inr (), initial_state\<lparr>drawn := d, storage := assign batch (storage initial_state)\<rparr>)
       \<and> map_of batch ''firstTimeSetup'' = Some (JBool False)
       \<and> (\<exists>n. map_of batch ''pinCode''
               = Some (storageEnvelope reference_platform (JStr ''1234'') demo_key n
                         (clock initial_state)))
       \<and> map_of batch ''hasEncryptedStorage'' = Some (JBool True)
       \<and> map_of batch ''storageVersion'' = Some (JStr ''1.0'')"
    by (rule exI [of _ batch], rule exI [of _ dr]) (simp add: w a b h sv)
  with u d f show ?thesis by (intro conjI)
qed

section \<open>Migration\<close>

lemma migrateItems_returns:
  "Encrypt \<in> set (usages k) \<Longrightarrow>
   \<exists>enc d. migrateItems h k items acc s = (Inr enc, s\<lparr>drawn := d\<rparr>)"
proof (induction items arbitrary: acc s)
  case Nil
  have "s = s\<lparr>drawn := drawn s\<rparr>" by simp
  then show ?case by (metis migrateItems.simps(1))
next
  case (Cons kv items)
  obtain key v where kv: "kv = (key, v)" by (cases kv)
  show ?case
  proof (cases "key \<in> set skipEncryption \<or> v = JNull")
    case True
    with Cons kv show ?thesis by auto
  next
    case False
    from Cons.IH [OF Cons.prems, of "AList.update key (storageEnvelope h v k (drawn s) (clock s)) acc"
        "s\<lparr>drawn := Suc (drawn s)\<rparr>"]
    obtain enc d where "migrateItems h k items
        (AList.update key (storageEnvelope h v k (drawn s) (clock s)) acc)
        (s\<lparr>drawn := Suc (drawn s)\<rparr>) = (Inr enc, s\<lparr>drawn := d\<rparr>)"
      by auto
    with False kv Cons.prems show ?thesis
      by (auto simp: encryptStorageData_ok)
  qed
qed

lemma encryptStorageData_frame:
  "encryptStorageData h v k s = (r, s1) \<Longrightarrow> s1 = s\<lparr>drawn := Suc (drawn s)\<rparr>"
  by (auto simp: encryptStorageData_def getRandomValues_def Let_def split: sum.splits)

lemma migrateItems_frame:
  "migrateItems h k items acc s = (r, s') \<Longrightarrow> \<exists>d. s' = s\<lparr>drawn := d\<rparr>"
proof (induction items arbitrary: acc s)
  case Nil
  have "s = s\<lparr>drawn := drawn s\<rparr>" by simp
  with Nil show ?case by (metis Pair_inject migrateItems.simps(1))
next
  case (Cons kv items)
  obtain key v where kv: "kv = (key, v)" by (cases kv)
  show ?case
  proof (cases "key \<in> set skipEncryption \<or> v = JNull")
    case True
    with Cons kv show ?thesis by (auto split: if_splits)
  next
    case False
    obtain r1 s1 where e: "encryptStorageData h v k s = (r1, s1)" by (cases "encryptStorageData h v k s")
    then have s1: "s1 = s\<lparr>drawn := Suc (drawn s)\<rparr>" by (rule encryptStorageData_frame)
    show ?thesis
    proof (cases r1)
      case (Inl e1)
      with False kv e Cons.prems s1 show ?thesis by auto
    next
      case (Inr env)
      with False kv e Cons.prems
      have "migrateItems h k items (AList.update key env acc) s1 = (r, s')" by auto
      from Cons.IH [OF this] s1 show ?thesis by auto
    qed
  qed
qed

lemma migrateItems_distinct:
  "migrateItems h k items acc s = (Inr enc, s') \<Longrightarrow> distinct (map fst acc) \<Longrightarrow>
   distinct (map fst enc)"
proof (induction items arbitrary: acc s)
  case Nil
  then show ?case by simp
next
  case (Cons kv items)
  obtain key v where kv: "kv = (key, v)" by (cases kv)
  from Cons.prems kv obtain acc' s1 where
    run: "migrateItems h k items acc' s1 = (Inr enc, s')" and d: "distinct (map fst acc')"
    by (auto simp: distinct_update split: if_splits prod.splits sum.splits)
  from Cons.IH [OF run d] show ?case .
qed

lemma marker_after_stamp:
  assumes "distinct (map fst enc)"
  shows "truthy_opt (map_of (assign (stamp enc) st) ''hasEncryptedStorage'')"
  using assms
  by (simp add: map_of_assign_distinct distinct_stamp map_of_stamp map_add_def)

lemma migrate_marked:
  "faults s = [] \<Longrightarrow> truthy_opt (map_of (storage s) ''hasEncryptedStorage'') \<Longrightarrow>
   migrateToEncryptedStorage h k s = (Inr True, s)"
  by (simp add: migrateToEncryptedStorage_def chrome_storage_get_ok)

lemma migrate_success:
  assumes "faults s = []" and "migrateToEncryptedStorage h k s = (Inr True, s1)"
  shows "faults s1 = [] \<and> truthy_opt (map_of (storage s1) ''hasEncryptedStorage'')"
proof (cases "truthy_opt (map_of (storage s) ''hasEncryptedStorage'')")
  case True
  with assms show ?thesis by (simp add: migrate_marked)
next
  case False
  obtain r s2 where run: "migrateItems h k (storage s) [] s = (r, s2)"
    by (cases "migrateItems h k (storage s) [] s")
  from migrateItems_frame [OF run] obtain d where s2: "s2 = s\<lparr>drawn := d\<rparr>" by blast
  show ?thesis
  proof (cases r)
    case (Inl e)
    with False run assms show ?thesis
      by (simp add: migrateToEncryptedStorage_def chrome_storage_get_ok)
  next
    case (Inr enc)
    with run have "distinct (map fst enc)" by (auto dest: migrateItems_distinct)
    then have "truthy_opt (map_of (assign (stamp enc) (storage s)) ''hasEncryptedStorage'')"
      by (rule marker_after_stamp)
    with False run Inr assms s2 show ?thesis
      by (auto simp: migrateToEncryptedStorage_def chrome_storage_get_ok chrome_storage_set_ok)
  qed
qed

lemma migrate_returns:
  assumes "faults s = []" and "Encrypt \<in> set (usages k)"
  shows "\<exists>s1. migrateToEncryptedStorage h k s = (Inr True, s1)"
proof (cases "truthy_opt (map_of (storage s) ''hasEncryptedStorage'')")
  case True
  with assms show ?thesis by (simp add: migrate_marked)
next
  case False
  from migrateItems_returns [OF assms(2)] obtain enc d
    where "migrateItems h k (storage s) [] s = (Inr enc, s\<lparr>drawn := d\<rparr>)" by blast
  with False assms show ?thesis
    by (simp add: migrateToEncryptedStorage_def chrome_storage_get_ok chrome_storage_set_ok)
qed

text \<open>
  Claim C6. While the store answers its calls: when the \<open>hasEncryptedStorage\<close> marker
  is set, \<open>migrateToEncryptedStorage\<close> returns success and leaves everything as it
  was; and after any successful call a second call (under any key) is such a no-op, so
  two calls in a row leave the store as one call does. A key that may encrypt makes the
  call succeed.
\<close>

theorem migrate_idempotent:
  assumes "faults s = []"
  shows "(truthy_opt (map_of (storage s) ''hasEncryptedStorage'') \<longrightarrow>
            migrateToEncryptedStorage h k s = (Inr True, s))
       \<and> (\<forall>s1. migrateToEncryptedStorage h k s = (Inr True, s1) \<longrightarrow>
            migrateToEncryptedStorage h k' s1 = (Inr True, s1))
       \<and> (Encrypt \<in> set (usages k) \<longrightarrow> (\<exists>s1. migrateToEncryptedStorage h k s = (Inr True, s1)))"
proof (intro conjI allI impI)
  assume "truthy_opt (map_of (storage s) ''hasEncryptedStorage'')"
  with assms show "migrateToEncryptedStorage h k s = (Inr True, s)"
    by (simp add: migrate_marked)
next
  fix s1
  assume "migrateToEncryptedStorage h k s = (Inr True, s1)"
  from migrate_success [OF assms this]
  show "migrateToEncryptedStorage h k' s1 = (Inr True, s1)"
    by (simp add: migrate_marked)
next
  assume "Encrypt \<in> set (usages k)"
  with assms show "\<exists>s1. migrateToEncryptedStorage h k s = (Inr True, s1)"
    by (simp add: migrate_returns)
qed

theorem migrate_idempotent_witness:
  "faults marked_state = []
   \<and> truthy_opt (map_of (storage marked_state) ''hasEncryptedStorage'')
   \<and> migrateToEncryptedStorage reference_platform demo_key marked_state = (Inr True, marked_state)
   \<and> faults plain_state = [] \<and> Encrypt \<in> set (usages demo_key)
   \<and> (\<exists>s1. migrateToEncryptedStorage reference_platform demo_key plain_state = (Inr True, s1)
           \<and> migrateToEncryptedStorage reference_platform demo_key s1 = (Inr True, s1))"
proof -
  have f1: "faults marked_state = []" by (simp add: marked_state_def initial_state_def)
  have m: "truthy_opt (map_of (storage marked_state) ''hasEncryptedStorage'')"
    by (simp add: marked_state_def initial_state_def)
  have f2: "faults plain_state = []" by (simp add: plain_state_def initial_state_def)
  have u: "Encrypt \<in> set (usages demo_key)" by (simp add: demo_key_def)
  from migrate_idempotent [OF f1, of reference_platform demo_key demo_key] m
  have a: "migrateToEncryptedStorage reference_platform demo_key marked_state
             = (Inr True, marked_state)"
    by blast
  from migrate_idempotent [OF f2, of reference_platform demo_key demo_key] u
  have b: "\<exists>s1. migrateToEncryptedStorage reference_platform demo_key plain_state = (Inr True, s1)
           \<and> migrateToEncryptedStorage reference_platform demo_key s1 = (Inr True, s1)"
    by blast
  from f1 m a f2 u b show ?thesis by blast
qed

section \<open>Retrieving credentials\<close>

lemma getCredentials_decrypted:
  assumes "storage_api h" and "phrase \<noteq> []" and "validateSeedPhrase h phrase"
    and "keysFromMnemonic h phrase = Inr ks"
    and "secureStorage_get h (Some [''credentials'', ''backupCID'']) s = (Inr stored, s1)"
    and "map_of stored ''credentials'' = Some blob" and "truthy blob"
    and "decryptData h blob (encryptionKey ks) = Inr text"
    and "json_parse h text = Some document"
  shows "getCredentials h phrase s =
     (case documentShape document of
        Inl e \<Rightarrow> (emptyResult (Some (''Failed to decrypt credentials: '' @ message e)), s1)
      | Inr r \<Rightarrow> (r, s1))"
  using assms by (simp add: getCredentials_def)

lemma ref_validates: "validateSeedPhrase reference_platform ref_mnemonic"
  by code_simp

lemma ref_keys:
  "keysFromMnemonic reference_platform ref_mnemonic =
     Inr \<lparr>encryptionKey = demo_key,
          privateKey = ''0x'' @ toHexString (take 32 (ref_seed ref_mnemonic)),
          publicKey = ''0x'' @ toHexString (take 32 (drop 32 (ref_seed ref_mnemonic)))\<rparr>"
  by (simp add: keysFromMnemonic_ok [OF ref_mnemonicToSeed] ref_seed_length demo_key_def)

lemma vault_read:
  "secureStorage_get reference_platform (Some [''credentials'', ''backupCID'']) (vault_state doc)
     = (Inr [(''credentials'', blob_of doc)], vault_state doc)"
  by (simp add: secureStorage_get_def vault_state_def initial_state_def chrome_storage_get_def
      lastError_def)

lemma blob_decrypts: "decryptData reference_platform (blob_of doc) demo_key = Inr doc"
  by (simp add: blob_of_def decryptData_envelope subtle_decrypt_def demo_key_def
      reference_platform_def ref_gcm_decrypt_def ref_gcm_encrypt_def)

lemma vault_getCredentials:
  assumes "json_parse reference_platform doc = Some document"
  shows "getCredentials reference_platform ref_mnemonic (vault_state doc) =
     (case documentShape document of
        Inl e \<Rightarrow>
          (emptyResult (Some (''Failed to decrypt credentials: '' @ message e)), vault_state doc)
      | Inr r \<Rightarrow> (r, vault_state doc))"
proof (rule getCredentials_decrypted [OF _ _ ref_validates ref_keys vault_read])
  show "storage_api reference_platform" by (simp add: reference_platform_def)
  show "ref_mnemonic \<noteq> []" by (simp add: ref_mnemonic_def)
  show "map_of [(''credentials'', blob_of doc)] ''credentials'' = Some (blob_of doc)" by simp
  show "truthy (blob_of doc)" by (simp add: blob_of_def)
  show "decryptData reference_platform (blob_of doc)
          (encryptionKey \<lparr>encryptionKey = demo_key,
             privateKey = ''0x'' @ toHexString (take 32 (ref_seed ref_mnemonic)),
             publicKey = ''0x'' @ toHexString (take 32 (drop 32 (ref_seed ref_mnemonic)))\<rparr>)
        = Inr doc"
    by (simp add: blob_decrypts)
  show "json_parse reference_platform doc = Some document" by (rule assms)
qed

lemma parse_array_text:
  "json_parse reference_platform array_text = Some (JArr [JObj [(''id'', JStr ''1'')]])"
  by code_simp

lemma parse_object_text:
  "json_parse reference_platform object_text =
     Some (JObj [(''credentials'', JArr [JObj [(''id'', JStr ''1'')]]),
                 (''walletSeeds'', JArr [JObj [(''name'', JStr ''w'')]])])"
  by code_simp

lemma parse_single_text:
  "json_parse reference_platform single_text = Some (JObj [(''id'', JStr ''1'')])"
  by code_simp

lemma parse_null_text:
  "json_parse reference_platform null_text = Some (JObj [(''credentials'', JNull)])"
  by code_simp

text \<open>
  Claim C7, as the code has it. When the stored blob decrypts and its text parses,
  retrieval returns: for an array, that array as the credentials and no wallet seeds;
  for an object whose \<open>credentials\<close> field is truthy, that field as the credentials
  and the \<open>walletSeeds\<close> field or \<open>[]\<close>; for any other object (the field absent or
  falsy), the object itself as the single record, and no wallet seeds.
\<close>

theorem getCredentials_document_shapes:
  assumes "storage_api h" and "phrase \<noteq> []" and "validateSeedPhrase h phrase"
    and "keysFromMnemonic h phrase = Inr ks"
    and "secureStorage_get h (Some [''credentials'', ''backupCID'']) s = (Inr stored, s1)"
    and "map_of stored ''credentials'' = Some blob" and "truthy blob"
    and "decryptData h blob (encryptionKey ks) = Inr text"
    and "json_parse h text = Some document"
  shows "(\<forall>xs. document = JArr xs \<longrightarrow>
            getCredentials h phrase s =
              (\<lparr>credentials = Some (JArr xs), walletSeeds = Some (JArr []), error = None\<rparr>, s1))
       \<and> (\<forall>ms c. document = JObj ms \<and> map_of ms ''credentials'' = Some c \<and> truthy c \<longrightarrow>
            getCredentials h phrase s =
              (\<lparr>credentials = Some c, walletSeeds = Some (or_empty (map_of ms ''walletSeeds'')),
                error = None\<rparr>, s1))
       \<and> (\<forall>ms. document = JObj ms \<and> \<not> truthy_opt (map_of ms ''credentials'') \<longrightarrow>
            getCredentials h phrase s =
              (\<lparr>credentials = Some (JArr [document]), walletSeeds = Some (JArr []),
                error = None\<rparr>, s1))"
  using getCredentials_decrypted [OF assms]
  by (auto simp: documentShape_def)

theorem getCredentials_document_shapes_witness:
  "getCredentials reference_platform ref_mnemonic (vault_state array_text) =
     (\<lparr>credentials = Some (JArr [JObj [(''id'', JStr ''1'')]]), walletSeeds = Some (JArr []),
       error = None\<rparr>, vault_state array_text)
   \<and> getCredentials reference_platform ref_mnemonic (vault_state object_text) =
     (\<lparr>credentials = Some (JArr [JObj [(''id'', JStr ''1'')]]),
       walletSeeds = Some (JArr [JObj [(''name'', JStr ''w'')]]), error = None\<rparr>,
      vault_state object_text)
   \<and> getCredentials reference_platform ref_mnemonic (vault_state single_text) =
     (\<lparr>credentials = Some (JArr [JObj [(''id'', JStr ''1'')]]), walletSeeds = Some (JArr []),
       error = None\<rparr>, vault_state single_text)"
proof -
  have api: "storage_api reference_platform" by (simp add: reference_platform_def)
  have ne: "ref_mnemonic \<noteq> []" by (simp add: ref_mnemonic_def)
  have m: "map_of [(''credentials'', blob_of doc)] ''credentials'' = Some (blob_of doc)" for doc
    by simp
  have t: "truthy (blob_of doc)" for doc by (simp add: blob_of_def)
  have d: "decryptData reference_platform (blob_of doc)
          (encryptionKey \<lparr>encryptionKey = demo_key,
             privateKey = ''0x'' @ toHexString (take 32 (ref_seed ref_mnemonic)),
             publicKey = ''0x'' @ toHexString (take 32 (drop 32 (ref_seed ref_mnemonic)))\<rparr>)
        = Inr doc" for doc
    by (simp add: blob_decrypts)
  note shapes = getCredentials_document_shapes [OF api ne ref_validates ref_keys vault_read m t d]
  have a: "getCredentials reference_platform ref_mnemonic (vault_state array_text) =
     (\<lparr>credentials = Some (JArr [JObj [(''id'', JStr ''1'')]]), walletSeeds = Some (JArr []),
       error = None\<rparr>, vault_state array_text)"
    using shapes [OF parse_array_text] by simp
  have b: "getCredentials reference_platform ref_mnemonic (vault_state object_text) =
     (\<lparr>credentials = Some (JArr [JObj [(''id'', JStr ''1'')]]),
       walletSeeds = Some (JArr [JObj [(''name'', JStr ''w'')]]), error = None\<rparr>,
      vault_state object_text)"
    using shapes [OF parse_object_text] by simp
  have c: "getCredentials reference_platform ref_mnemonic (vault_state single_text) =
     (\<lparr>credentials = Some (JArr [JObj [(''id'', JStr ''1'')]]), walletSeeds = Some (JArr []),
       error = None\<rparr>, vault_state single_text)"
    using shapes [OF parse_single_text] by simp
  from a b c show ?thesis by (intro conjI)
qed

text \<open>
  Claim C7 as stated fails on an object that has a \<open>credentials\<close> field whose value is
  falsy: the blob decrypts, its text \<open>{"credentials":null}\<close> parses to that object, and
  retrieval returns the object itself as the single record, not the field.
\<close>

theorem getCredentials_null_field_counterexample:
  "decryptData reference_platform (blob_of null_text) demo_key = Inr null_text
   \<and> json_parse reference_platform null_text = Some (JObj [(''credentials'', JNull)])
   \<and> getCredentials reference_platform ref_mnemonic (vault_state null_text) =
       (\<lparr>credentials = Some (JArr [JObj [(''credentials'', JNull)]]),
         walletSeeds = Some (JArr []), error = None\<rparr>, vault_state null_text)"
  using vault_getCredentials [OF parse_null_text] parse_null_text
  by (simp add: blob_decrypts documentShape_def)

section \<open>Mnemonic validation\<close>

lemma secureStorageSet_returns:
  assumes "Encrypt \<in> set (usages k)" and "faults s = []"
  shows "\<exists>batch d. secureStorageSet h items k s
           = (Inr (), s\<lparr>drawn := d, storage := assign batch (storage s)\<rparr>)"
proof -
  from encryptItems_returns [OF assms(1)] obtain enc d
    where "encryptItems h k items [] s = (Inr enc, s\<lparr>drawn := d\<rparr>)"
    by blast
  with assms(2) have "secureStorageSet h items k s
           = (Inr (), s\<lparr>drawn := d, storage := assign (stamp enc) (storage s)\<rparr>)"
    by (simp add: secureStorageSet_def chrome_storage_set_ok)
  then show ?thesis by blast
qed

lemma secureStorage_set_returns:
  assumes "faults s = []" and "key_ready s"
  shows "\<exists>s'. secureStorage_set h items s = (Inr (), s')"
proof (cases "currentStorageKey s")
  case None
  with assms show ?thesis by (simp add: secureStorage_set_def chrome_storage_set_ok)
next
  case (Some k)
  with assms have "Encrypt \<in> set (usages k)" by (simp add: key_ready_def)
  from secureStorageSet_returns [OF this assms(1)] Some show ?thesis
    by (auto simp: secureStorage_set_def)
qed

lemma keysFromMnemonic_Inr:
  assumes "keysFromMnemonic h m = Inr ks"
  shows "\<exists>seed. mnemonicToSeed h m = Inr seed \<and> 64 \<le> length seed
           \<and> encryptionKey ks = \<lparr>material = take 32 seed, usages = [Encrypt, Decrypt]\<rparr>"
  using assms
  by (auto simp: keysFromMnemonic_def generateKeyFromSeedBytes_def Let_def
      split: sum.splits if_splits)

lemma storeCredentials_succeeds:
  assumes "storage_api h" and "mnemonicToSeed h m = Inr seed" and "64 \<le> length seed"
    and "faults s = []" and "key_ready s"
  shows "fst (storeCredentials h creds m t r s) = Success"
proof -
  let ?k = "\<lparr>material = take 32 seed, usages = [Encrypt, Decrypt]\<rparr>"
  let ?s1 = "s\<lparr>drawn := Suc (drawn s)\<rparr>"
  have ks: "keysFromMnemonic h m =
     Inr \<lparr>encryptionKey = ?k,
          privateKey = ''0x'' @ toHexString (take 32 seed),
          publicKey = ''0x'' @ toHexString (take 32 (drop 32 seed))\<rparr>"
    using assms(2,3) by (rule keysFromMnemonic_ok)
  have enc: "\<exists>env. encryptData h (json_stringify h (dataToStore h creds t s)) ?k s = (Inr env, ?s1)"
    by (simp add: encryptData_ok)
  then obtain env where env: "encryptData h (json_stringify h (dataToStore h creds t s)) ?k s
      = (Inr env, ?s1)" by blast
  have "faults ?s1 = []" "key_ready ?s1" using assms(4,5) by (simp_all add: key_ready_def)
  from secureStorage_set_returns [OF this] obtain s2 where
    "secureStorage_set h [(''credentials'', env), (''hasSeedPhrase'', JBool True)] ?s1 = (Inr (), s2)"
    by blast
  with assms(1) ks env show ?thesis
    by (subst storeCredentials.simps) (simp split: prod.splits)
qed

lemma getCredentials_invalid:
  "storage_api h \<Longrightarrow> m \<noteq> [] \<Longrightarrow> \<not> validateSeedPhrase h m \<Longrightarrow>
   getCredentials h m s = (emptyResult (Some ''Invalid seed phrase''), s)"
  by (simp add: getCredentials_def)

lemma verifySeedPhraseLogin_invalid:
  "\<not> validateSeedPhrase h m \<Longrightarrow>
   verifySeedPhraseLogin h m s = (LoginFailed ''Invalid seed phrase'', s)"
  by (simp add: verifySeedPhraseLogin_def)

lemma not_a_mnemonic: "\<not> validateSeedPhrase reference_platform ''not a mnemonic''"
  by code_simp

lemma initial_ready: "faults initial_state = [] \<and> key_ready initial_state"
  by (simp add: initial_state_def key_ready_def)

lemma ref_api: "storage_api reference_platform"
  by (simp add: reference_platform_def)

lemma not_a_mnemonic_raw: "\<not> validateMnemonic reference_platform ''not a mnemonic''"
  by code_simp

lemma storeCredentials_fresh:
  assumes "storage_api h" and "mnemonicToSeed h m = Inr seed" and "64 \<le> length seed"
    and "faults s = []" and "currentStorageKey s = None" and "storage s = []"
  shows "storeCredentials h creds m t r s =
     (Success,
      s\<lparr>drawn := Suc (drawn s),
        storage :=
          [(''credentials'',
            JObj [(''iv'', bytes_json (random_values h (drawn s))),
                  (''data'', bytes_json (gcm_encrypt h (take 32 seed) (random_values h (drawn s))
                               (text_encode h (json_stringify h (dataToStore h creds t s)))))]),
           (''hasSeedPhrase'', JBool True),
           (''backups'',
            JArr [JObj [(''id'', JStr (number_toString (clock s))),
                        (''timestamp'', JNum (clock s)),
                        (''credentialCount'', JNum (int (length creds)))]]),
           (''currentBackupId'', JStr (number_toString (clock s)))]\<rparr>)"
  using assms
  by (subst storeCredentials.simps)
     (simp add: keysFromMnemonic_ok encryptData_ok secureStorage_set_def secureStorage_get_def
        chrome_storage_set_ok chrome_storage_get_ok createBackupRecord_def assign_def Let_def)

text \<open>
  Claim C4 fails on \<open>storeCredentials\<close>. The phrase \<open>not a mnemonic\<close> does not pass
  \<open>bip39.validateMnemonic\<close>, with or without the service's \<open>trim\<close>;
  \<open>bip39.mnemonicToSeed\<close> (which hashes any string) returns a seed for it; and
  \<open>storeCredentials\<close>, on a fresh extension, derives the AES key from the first 32
  bytes of that seed, stores the credentials encrypted under it and reports success.
  The sibling paths do validate: \<open>getCredentials\<close> and \<open>verifySeedPhraseLogin\<close> with
  the same phrase return \<open>Invalid seed phrase\<close>, so what was stored cannot be read back.
\<close>

theorem storeCredentials_accepts_invalid_mnemonic:
  "\<not> validateMnemonic reference_platform ''not a mnemonic''
   \<and> \<not> validateSeedPhrase reference_platform ''not a mnemonic''
   \<and> mnemonicToSeed reference_platform ''not a mnemonic'' = Inr (ref_seed ''not a mnemonic'')
   \<and> keysFromMnemonic reference_platform ''not a mnemonic''
       = Inr \<lparr>encryptionKey =
                \<lparr>material = take 32 (ref_seed ''not a mnemonic''), usages = [Encrypt, Decrypt]\<rparr>,
              privateKey = ''0x'' @ toHexString (take 32 (ref_seed ''not a mnemonic'')),
              publicKey = ''0x'' @ toHexString (take 32 (drop 32 (ref_seed ''not a mnemonic'')))\<rparr>
   \<and> fst (storeCredentials reference_platform [login_record] ''not a mnemonic'' None 0
            initial_state) = Success
   \<and> map_of (storage (snd (storeCredentials reference_platform [login_record]
                              ''not a mnemonic'' None 0 initial_state))) ''credentials''
       = Some (JObj [(''iv'', bytes_json (ref_random 0)),
                     (''data'',
                      bytes_json (ref_gcm_encrypt (take 32 (ref_seed ''not a mnemonic''))
                                    (ref_random 0)
                                    (ref_encode (ref_stringify
                                       (dataToStore reference_platform [login_record] None
                                          initial_state)))))])
   \<and> fst (getCredentials reference_platform ''not a mnemonic''
            (snd (storeCredentials reference_platform [login_record] ''not a mnemonic'' None 0
                    initial_state)))
       = emptyResult (Some ''Invalid seed phrase'')
   \<and> fst (verifySeedPhraseLogin reference_platform ''not a mnemonic''
            (snd (storeCredentials reference_platform [login_record] ''not a mnemonic'' None 0
                    initial_state)))
       = LoginFailed ''Invalid seed phrase''"
proof -
  have len: "64 \<le> length (ref_seed ''not a mnemonic'')" by (simp add: ref_seed_length)
  have init: "faults initial_state = []" "currentStorageKey initial_state = None"
    "storage initial_state = []" "drawn initial_state = 0"
    by (simp_all add: initial_state_def)
  note st = storeCredentials_fresh [OF ref_api ref_mnemonicToSeed len init(1,2,3),
      of "[login_record]" None 0]
  note k = keysFromMnemonic_ok [OF ref_mnemonicToSeed len]
  have a: "fst (storeCredentials reference_platform [login_record] ''not a mnemonic'' None 0
            initial_state) = Success"
    by (simp only: st fst_conv)
  have b: "map_of (storage (snd (storeCredentials reference_platform [login_record]
                              ''not a mnemonic'' None 0 initial_state))) ''credentials''
       = Some (JObj [(''iv'', bytes_json (ref_random 0)),
                     (''data'',
                      bytes_json (ref_gcm_encrypt (take 32 (ref_seed ''not a mnemonic''))
                                    (ref_random 0)
                                    (ref_encode (ref_stringify
                                       (dataToStore reference_platform [login_record] None
                                          initial_state)))))])"
    by (simp add: st init(4)) (simp add: reference_platform_def)
  have c: "fst (getCredentials reference_platform ''not a mnemonic''
            (snd (storeCredentials reference_platform [login_record] ''not a mnemonic'' None 0
                    initial_state)))
       = emptyResult (Some ''Invalid seed phrase'')"
    by (simp add: getCredentials_invalid [OF ref_api _ not_a_mnemonic])
  have d: "fst (verifySeedPhraseLogin reference_platform ''not a mnemonic''
            (snd (storeCredentials reference_platform [login_record] ''not a mnemonic'' None 0
                    initial_state)))
       = LoginFailed ''Invalid seed phrase''"
    by (simp add: verifySeedPhraseLogin_invalid [OF not_a_mnemonic])
  from not_a_mnemonic_raw not_a_mnemonic ref_mnemonicToSeed k a b c d
  show ?thesis by (intro conjI)
qed

section \<open>Importing credentials\<close>

lemma filterValid_filter:
  "\<forall>c\<in>set batch. \<exists>v. validateCredential c = Inr v \<Longrightarrow>
   filterValid batch = Inr (filter isValid batch)"
  by (induction batch) (auto simp: isValid_def)

lemma importCredentials_steps:
  assumes "json_parse h data = Some parsed" and "importedOf parsed = Inr (JArr batch)"
    and "\<forall>c\<in>set batch. \<exists>v. validateCredential c = Inr v"
    and "getCredentials h phrase s = (existingResult, s1)"
    and "replace \<or> spread (or_empty (credentials existingResult)) = Inr existing"
  shows "(filter isValid batch = [] \<longrightarrow>
            importCredentials h data phrase ''json'' replace s
              = (ImportFailed ''No valid credentials found in import data'', s))
       \<and> (filter isValid batch \<noteq> [] \<longrightarrow>
            (\<forall>s2. storeCredentials h
                    (if replace then filter isValid batch else existing @ filter isValid batch)
                    phrase None 0 s1 = (Success, s2) \<longrightarrow>
                  importCredentials h data phrase ''json'' replace s
                    = (ImportOk \<lparr>imported = length (filter isValid batch),
                          total = length (if replace then filter isValid batch
                                          else existing @ filter isValid batch),
                          skipped = length batch - length (filter isValid batch)\<rparr>, s2)))"
proof -
  note fv = filterValid_filter [OF assms(3)]
  show ?thesis
  proof (intro conjI impI allI)
    assume "filter isValid batch = []"
    with assms(1,2) fv
    show "importCredentials h data phrase ''json'' replace s
              = (ImportFailed ''No valid credentials found in import data'', s)"
      by (simp add: importCredentials_def)
  next
    fix s2
    assume ne: "filter isValid batch \<noteq> []"
      and st: "storeCredentials h
                    (if replace then filter isValid batch else existing @ filter isValid batch)
                    phrase None 0 s1 = (Success, s2)"
    show "importCredentials h data phrase ''json'' replace s
                    = (ImportOk \<lparr>imported = length (filter isValid batch),
                          total = length (if replace then filter isValid batch
                                          else existing @ filter isValid batch),
                          skipped = length batch - length (filter isValid batch)\<rparr>, s2)"
    proof (cases replace)
      case True
      with assms(1,2,4) fv ne st show ?thesis
        by (simp add: importCredentials_def)
    next
      case False
      with assms(5) have "spread (or_empty (credentials existingResult)) = Inr existing" by simp
      with False assms(1,2,4) fv ne st show ?thesis
        by (simp add: importCredentials_def)
    qed
  qed
qed

lemma parse_invalid_import:
  "json_parse reference_platform invalid_import = Some (JObj [(''credentials'', JArr [JObj []])])"
  by code_simp

lemma validate_empty_object:
  "validateCredential (JObj []) =
     Inr \<lparr>valid = False,
          errors = Some [''Website is required'', ''Username is required'', ''Password is required'']\<rparr>"
  by (simp add: validateCredential_def missing_def)

lemma getCredentials_initial:
  "getCredentials reference_platform ref_mnemonic initial_state = (emptyResult None, initial_state)"
  using ref_validates ref_keys ref_api
  by (simp add: getCredentials_def ref_mnemonic_def secureStorage_get_def initial_state_def
      chrome_storage_get_def lastError_def)

lemma parse_mixed_import:
  "json_parse reference_platform mixed_import =
     Some (JObj [(''credentials'', JArr [login_record, partial_record])])"
  by code_simp

lemma validate_login_record: "validateCredential login_record = Inr \<lparr>valid = True, errors = None\<rparr>"
  by code_simp

lemma validate_partial_record:
  "validateCredential partial_record =
     Inr \<lparr>valid = False, errors = Some [''Username is required'', ''Password is required'']\<rparr>"
  by code_simp

lemma imported_of_credentials:
  "importedOf (JObj [(''credentials'', JArr batch)]) = Inr (JArr batch)"
  by (simp add: importedOf_def)

lemma isValid_login_record: "isValid login_record"
  by (simp add: isValid_def validate_login_record)

lemma isValid_partial_record: "\<not> isValid partial_record"
  by (simp add: isValid_def validate_partial_record)

lemma isValid_empty_object: "\<not> isValid (JObj [])"
  by (simp add: isValid_def validate_empty_object)

lemma spread_initial:
  "spread (or_empty (credentials (emptyResult None))) = Inr []"
  by (simp add: emptyResult_def)

text \<open>
  Claim C8, as the code has it. For a batch whose records all pass through
  \<open>validateCredential\<close> without a thrown error, the valid records are those it accepts.
  When none is valid the import fails with \<open>No valid credentials found in import data\<close>
  and nothing is read or written. Otherwise the existing credentials are read, the valid
  records replace them (\<open>options.replace\<close>) or are appended to them, the result is
  written with \<open>storeCredentials\<close>, and when that succeeds the import reports
  \<open>imported\<close> = the number of valid records, \<open>total\<close> = the number written and
  \<open>skipped\<close> = the number of invalid records, in the state \<open>storeCredentials\<close> left.
\<close>

theorem importCredentials_counts_and_merges:
  assumes "json_parse h data = Some parsed" and "importedOf parsed = Inr (JArr batch)"
    and "\<forall>c\<in>set batch. \<exists>v. validateCredential c = Inr v"
    and "getCredentials h phrase s = (existingResult, s1)"
    and "replace \<or> spread (or_empty (credentials existingResult)) = Inr existing"
  shows "(filter isValid batch = [] \<longrightarrow>
            importCredentials h data phrase ''json'' replace s
              = (ImportFailed ''No valid credentials found in import data'', s))
       \<and> (filter isValid batch \<noteq> [] \<longrightarrow>
            (\<forall>s2. storeCredentials h
                    (if replace then filter isValid batch else existing @ filter isValid batch)
                    phrase None 0 s1 = (Success, s2) \<longrightarrow>
                  importCredentials h data phrase ''json'' replace s
                    = (ImportOk \<lparr>imported = length (filter isValid batch),
                          total = length (if replace then filter isValid batch
                                          else existing @ filter isValid batch),
                          skipped = length batch - length (filter isValid batch)\<rparr>, s2)))"
  using assms by (rule importCredentials_steps)

theorem importCredentials_counts_and_merges_witness:
  "json_parse reference_platform mixed_import
     = Some (JObj [(''credentials'', JArr [login_record, partial_record])])
   \<and> filter isValid [login_record, partial_record] = [login_record]
   \<and> fst (storeCredentials reference_platform [login_record] ref_mnemonic None 0 initial_state)
       = Success
   \<and> importCredentials reference_platform mixed_import ref_mnemonic ''json'' False initial_state
       = (ImportOk \<lparr>imported = 1, total = 1, skipped = 1\<rparr>,
          snd (storeCredentials reference_platform [login_record] ref_mnemonic None 0
                 initial_state))"
proof -
  have v: "\<forall>c\<in>set [login_record, partial_record]. \<exists>v. validateCredential c = Inr v"
    by (simp add: validate_login_record validate_partial_record)
  have f: "filter isValid [login_record, partial_record] = [login_record]"
    by (simp add: isValid_login_record isValid_partial_record)
  have sp: "False \<or> spread (or_empty (credentials (emptyResult None))) = Inr []"
    by (simp add: spread_initial)
  have ok: "fst (storeCredentials reference_platform [login_record] ref_mnemonic None 0
              initial_state) = Success"
    using storeCredentials_succeeds [OF ref_api ref_mnemonicToSeed, of ref_mnemonic initial_state]
      initial_ready
    by (simp add: ref_seed_length)
  then have st: "storeCredentials reference_platform [login_record] ref_mnemonic None 0
        initial_state
      = (Success, snd (storeCredentials reference_platform [login_record] ref_mnemonic None 0
                         initial_state))"
    by (simp add: prod_eq_iff)
  from importCredentials_counts_and_merges
         [OF parse_mixed_import imported_of_credentials v getCredentials_initial sp]
       f st
  have "importCredentials reference_platform mixed_import ref_mnemonic ''json'' False
          initial_state
       = (ImportOk \<lparr>imported = 1, total = 1, skipped = 1\<rparr>,
          snd (storeCredentials reference_platform [login_record] ref_mnemonic None 0
                 initial_state))"
    by simp
  with parse_mixed_import f ok show ?thesis by simp
qed

text \<open>
  Claim C8 as stated fails on a batch whose only record is invalid: the record is not
  skipped and counted, the whole import fails.
\<close>

theorem importCredentials_all_invalid_counterexample:
  "json_parse reference_platform invalid_import
     = Some (JObj [(''credentials'', JArr [JObj []])])
   \<and> validateCredential (JObj []) =
       Inr \<lparr>valid = False,
            errors = Some [''Website is required'', ''Username is required'',
                           ''Password is required'']\<rparr>
   \<and> importCredentials reference_platform invalid_import ref_mnemonic ''json'' False
         initial_state
       = (ImportFailed ''No valid credentials found in import data'', initial_state)"
proof -
  have v: "\<forall>c\<in>set [JObj []]. \<exists>v. validateCredential c = Inr v"
    by (simp add: validate_empty_object)
  have sp: "False \<or> spread (or_empty (credentials (emptyResult None))) = Inr []"
    by (simp add: spread_initial)
  from importCredentials_steps
         [OF parse_invalid_import imported_of_credentials v getCredentials_initial sp]
  have "importCredentials reference_platform invalid_import ref_mnemonic ''json'' False
         initial_state
       = (ImportFailed ''No valid credentials found in import data'', initial_state)"
    by (simp add: isValid_empty_object)
  with parse_invalid_import validate_empty_object show ?thesis by simp
qed

end
